theory Spec2Isabelle
  imports Complex_Main "HOL-Library.Char_ord" "HOL-Library.List_Lexorder" "HOL-Library.Multiset"
    "HOL-Library.Log_Nat"
begin

section \<open>Attrition pipeline: data loader, training loop and threshold scan\<close>

text \<open>
  The development embeds three source files: the data loader (\<open>data-loader.js\<close>, class
  \<open>DataLoader\<close>), the classifier wrapper (\<open>gru.js\<close>, class \<open>GRUClassifier\<close>) and the
  application glue (\<open>app.js\<close>, class \<open>App\<close>).

  Modelling conventions.
  \<^item> A JavaScript string is a \<open>string\<close>; a character stands for one code unit in the
    Latin-1 range. \<open>Array.prototype.sort()\<close> without a comparator orders strings by code
    units, which is the lexicographic order on \<open>char list\<close>.
  \<^item> A row object is a map \<open>string \<rightharpoonup> string\<close>; a missing key reads \<open>undefined\<close> (\<open>None\<close>).
  \<^item> Numbers of the data loader and of the training loop are \<open>jsnum\<close>: a real, one of the
    two infinities, or NaN. Finite arithmetic is exact (rounding of binary64 is not part of
    this type); the threshold scan, whose behaviour is decided by rounding, has its own
    binary64 model further down.
  \<^item> Every \<open>throw\<close> is an \<open>Inl\<close> of the type \<open>error\<close>.
\<close>

subsection \<open>Errors\<close>

datatype error =
    NoFileSelected
  | FailedToReadFile
  | CsvHasNoData
  | MissingRequiredColumn string
  | DatasetNotLoaded
  | TypeError
  | BuildTheModelFirst

subsection \<open>Text helpers of \<open>#parseCSV\<close>\<close>

definition LF :: char where "LF = CHR 0x0A"
definition CR :: char where "CR = CHR 0x0D"

text \<open>\<open>text.replace(/\r\n/g,'\n')\<close>\<close>

fun replace_crlf :: "string \<Rightarrow> string" where
  "replace_crlf [] = []"
| "replace_crlf [x] = [x]"
| "replace_crlf (x # y # zs) =
     (if x = CR \<and> y = LF then LF # replace_crlf zs else x # replace_crlf (y # zs))"

text \<open>\<open>.replace(/\r/g,'\n')\<close>\<close>

definition replace_cr :: "string \<Rightarrow> string" where
  "replace_cr s = map (\<lambda>c. if c = CR then LF else c) s"

text \<open>\<open>s.split(c)\<close> for a one-character separator: the empty string splits into one empty
  field, and a trailing separator gives a trailing empty field.\<close>

fun split_on :: "char \<Rightarrow> string \<Rightarrow> string list" where
  "split_on c [] = [[]]"
| "split_on c (x # xs) =
     (if x = c then [] # split_on c xs
      else (case split_on c xs of [] \<Rightarrow> [[x]] | w # ws \<Rightarrow> (x # w) # ws))"

text \<open>\<open>String.prototype.trim\<close>: white space and line terminators, here those below U+0100.\<close>

definition is_space :: "char \<Rightarrow> bool" where
  "is_space c \<longleftrightarrow> c \<in> set [CHR 0x09, CHR 0x0A, CHR 0x0B, CHR 0x0C, CHR 0x0D, CHR 0x20, CHR 0xA0]"

definition trim :: "string \<Rightarrow> string" where
  "trim s = rev (dropWhile is_space (rev (dropWhile is_space s)))"

subsection \<open>The loader object\<close>

type_synonym row = "string \<rightharpoonup> string"

datatype jsnum = Fin real | PInf | NInf | NaN

record scaler_t =
  mean :: "jsnum list"
  std :: "jsnum list"

record aug_cfg =
  enable :: bool
  targetRatio :: jsnum
  noiseStd :: jsnum

text \<open>A plain object used as a dictionary from strings: own properties in insertion order.\<close>

type_synonym 'v jsobj = "(string \<times> 'v) list"

record loader =
  headers :: "string list"
  raw :: "row list"
  catCols :: "string list"
  encoders :: "string \<rightharpoonup> nat jsobj"
  featureOrder :: "string list"
  scaler :: "scaler_t option"
  metaRows :: "row list"
  kept :: "string list"
  augCfg :: aug_cfg

definition labelKey :: string where "labelKey = ''Attrition''"

definition baseNum :: "string list" where
  "baseNum =
    [''Age'', ''DailyRate'', ''DistanceFromHome'', ''Education'',
     ''EnvironmentSatisfaction'', ''HourlyRate'', ''JobInvolvement'', ''JobLevel'',
     ''JobSatisfaction'', ''MonthlyIncome'', ''MonthlyRate'', ''NumCompaniesWorked'',
     ''PercentSalaryHike'', ''PerformanceRating'', ''RelationshipSatisfaction'',
     ''StockOptionLevel'', ''TotalWorkingYears'', ''TrainingTimesLastYear'',
     ''WorkLifeBalance'', ''YearsAtCompany'', ''YearsInCurrentRole'',
     ''YearsSinceLastPromotion'', ''YearsWithCurrManager'']"

definition dropped :: "string list" where
  "dropped = [''EmployeeNumber'', ''EmployeeCount'', ''StandardHours'', ''Over18'']"

definition catKnown :: "string list" where
  "catKnown = [''BusinessTravel'', ''Department'', ''EducationField'', ''Gender'',
               ''JobRole'', ''MaritalStatus'', ''OverTime'']"

definition engineeredNames :: "string list" where
  "engineeredNames = [''TenureRatio'', ''NoPromotionRatio'', ''IncomePerLevel'',
                      ''OvertimeStress'', ''TravelFreq'', ''IsSingle'', ''LongDistance'']"

definition metaFields :: "string list" where
  "metaFields = [''EmployeeNumber'', ''JobRole'', ''OverTime'', ''YearsAtCompany'',
                 ''MonthlyIncome'']"

text \<open>The constructor.\<close>

definition new_loader :: loader where
  "new_loader = \<lparr> headers = [], raw = [], catCols = [], encoders = Map.empty,
      featureOrder = [], scaler = None, metaRows = [], kept = [],
      augCfg = \<lparr> enable = False, targetRatio = NaN, noiseStd = NaN \<rparr> \<rparr>"

subsection \<open>\<open>#parseCSV\<close> and \<open>fromFile\<close>\<close>

text \<open>\<open>text.replace(...).replace(...).split('\n').filter(Boolean)\<close>: the non-empty lines.\<close>

definition csv_lines :: "string \<Rightarrow> string list" where
  "csv_lines text = filter (\<lambda>l. l \<noteq> []) (split_on LF (replace_cr (replace_crlf text)))"

definition csv_headers :: "string \<Rightarrow> string list" where
  "csv_headers text =
     (case csv_lines text of [] \<Rightarrow> [] | l # _ \<Rightarrow> map trim (split_on CHR '','' l))"

text \<open>
  \<open>obj[headers[j]] = parts[j].trim()\<close> for \<open>j\<close> in order: a later column of the same name
  overwrites an earlier one. Assigning to the key \<open>__proto__\<close> of an object literal does not
  create a property when the value is a string.
\<close>

definition proto :: string where "proto = ''__proto__''"

definition mk_row :: "string list \<Rightarrow> string list \<Rightarrow> row" where
  "mk_row hs parts =
     fold (\<lambda>(h, p) obj. if h = proto then obj else obj(h \<mapsto> trim p)) (zip hs parts) Map.empty"

text \<open>The loop over the data lines: a line whose field count differs is skipped.\<close>

fun parse_rows :: "string list \<Rightarrow> string list \<Rightarrow> row list" where
  "parse_rows hs [] = []"
| "parse_rows hs (l # ls) =
     (let parts = split_on CHR '','' l in
      if length parts \<noteq> length hs then parse_rows hs ls
      else mk_row hs parts # parse_rows hs ls)"

definition parseCSV :: "string \<Rightarrow> error + (string list \<times> row list)" where
  "parseCSV text =
     (let lines = csv_lines text in
      if length lines < 2 then Inl CsvHasNoData
      else let hs = map trim (split_on CHR '','' (hd lines)) in
           Inr (hs, parse_rows hs (tl lines)))"

text \<open>The argument of \<open>fromFile\<close>: no file, a file the reader fails on, or a file with its
  text.\<close>

datatype file_arg = NoFile | Unreadable | Readable string

definition allowed :: "string list \<Rightarrow> string list" where
  "allowed cats = baseNum @ cats @ [labelKey] @ metaFields @ dropped"

definition keep_allowed :: "string list \<Rightarrow> string list \<Rightarrow> row \<Rightarrow> row" where
  "keep_allowed hs al r = fold (\<lambda>k obj. if k \<in> set al then obj(k := r k) else obj) hs Map.empty"

definition meta_of :: "row \<Rightarrow> row" where
  "meta_of r = fold (\<lambda>f m. m(f \<mapsto> (case r f of None \<Rightarrow> [] | Some v \<Rightarrow> v))) metaFields Map.empty"

definition fromFile :: "loader \<Rightarrow> file_arg \<Rightarrow> error + loader" where
  "fromFile dl f =
     (case f of
        NoFile \<Rightarrow> Inl NoFileSelected
      | Unreadable \<Rightarrow> Inl FailedToReadFile
      | Readable text \<Rightarrow>
          (case parseCSV text of
             Inl e \<Rightarrow> Inl e
           | Inr (hs, rows) \<Rightarrow>
               if labelKey \<notin> set hs then Inl (MissingRequiredColumn labelKey)
               else
                 let cats = filter (\<lambda>h. h \<in> set catKnown) hs;
                     rs = map (keep_allowed hs (allowed cats)) rows
                 in Inr (dl\<lparr> headers := hs, catCols := cats, raw := rs,
                            metaRows := map meta_of rs \<rparr>)))"

text \<open>The data lines of a text: the non-empty lines after the header line; a data line is
  well formed when it has as many fields as the header.\<close>

definition data_lines :: "string \<Rightarrow> string list" where
  "data_lines text = tl (csv_lines text)"

definition well_formed :: "string \<Rightarrow> string \<Rightarrow> bool" where
  "well_formed text l \<longleftrightarrow> length (split_on CHR '','' l) = length (csv_headers text)"

subsection \<open>Numbers\<close>

text \<open>
  The operations of \<open>jsnum\<close> follow IEEE 754 on the special values. Zero carries no sign:
  a division of a non-zero number by zero gives the infinity of the dividend's sign (every
  divisor in the code below is floored away from zero before it is used).
\<close>

fun js_isFinite :: "jsnum \<Rightarrow> bool" where
  "js_isFinite (Fin a) = True"
| "js_isFinite _ = False"

fun js_neg :: "jsnum \<Rightarrow> jsnum" where
  "js_neg (Fin a) = Fin (- a)"
| "js_neg PInf = NInf"
| "js_neg NInf = PInf"
| "js_neg NaN = NaN"

fun js_add :: "jsnum \<Rightarrow> jsnum \<Rightarrow> jsnum" where
  "js_add NaN y = NaN"
| "js_add x NaN = NaN"
| "js_add (Fin a) (Fin b) = Fin (a + b)"
| "js_add PInf NInf = NaN"
| "js_add NInf PInf = NaN"
| "js_add PInf y = PInf"
| "js_add NInf y = NInf"
| "js_add (Fin a) y = y"

definition js_sub :: "jsnum \<Rightarrow> jsnum \<Rightarrow> jsnum" where
  "js_sub x y = js_add x (js_neg y)"

fun js_mul :: "jsnum \<Rightarrow> jsnum \<Rightarrow> jsnum" where
  "js_mul NaN y = NaN"
| "js_mul x NaN = NaN"
| "js_mul (Fin a) (Fin b) = Fin (a * b)"
| "js_mul (Fin a) y = (if a = 0 then NaN else if 0 < a then y else js_neg y)"
| "js_mul x (Fin b) = (if b = 0 then NaN else if 0 < b then x else js_neg x)"
| "js_mul PInf y = y"
| "js_mul NInf y = js_neg y"

fun js_div :: "jsnum \<Rightarrow> jsnum \<Rightarrow> jsnum" where
  "js_div NaN y = NaN"
| "js_div x NaN = NaN"
| "js_div (Fin a) (Fin b) =
     (if b = 0 then (if a = 0 then NaN else if 0 < a then PInf else NInf) else Fin (a / b))"
| "js_div (Fin a) y = Fin 0"
| "js_div x (Fin b) = (if 0 \<le> b then x else js_neg x)"
| "js_div x y = NaN"

text \<open>The relational operators: every comparison with NaN is false.\<close>

fun js_lt :: "jsnum \<Rightarrow> jsnum \<Rightarrow> bool" where
  "js_lt NaN y = False"
| "js_lt x NaN = False"
| "js_lt (Fin a) (Fin b) = (a < b)"
| "js_lt x PInf = (x \<noteq> PInf)"
| "js_lt NInf y = (y \<noteq> NInf)"
| "js_lt x y = False"

definition js_le :: "jsnum \<Rightarrow> jsnum \<Rightarrow> bool" where
  "js_le x y \<longleftrightarrow> x \<noteq> NaN \<and> y \<noteq> NaN \<and> (x = y \<or> js_lt x y)"

text \<open>\<open>Math.max\<close> and \<open>Math.min\<close> of two arguments: NaN when either argument is NaN.\<close>

definition js_max :: "jsnum \<Rightarrow> jsnum \<Rightarrow> jsnum" where
  "js_max x y = (if x = NaN \<or> y = NaN then NaN else if js_lt x y then y else x)"

definition js_min :: "jsnum \<Rightarrow> jsnum \<Rightarrow> jsnum" where
  "js_min x y = (if x = NaN \<or> y = NaN then NaN else if js_lt y x then y else x)"

fun js_floor :: "jsnum \<Rightarrow> jsnum" where
  "js_floor (Fin a) = Fin (of_int \<lfloor>a\<rfloor>)"
| "js_floor x = x"

text \<open>\<open>Math.round\<close>: the nearest integer, a tie going up.\<close>

fun js_round :: "jsnum \<Rightarrow> jsnum" where
  "js_round (Fin a) = Fin (of_int \<lfloor>a + 1 / 2\<rfloor>)"
| "js_round x = x"

fun js_sqrt :: "jsnum \<Rightarrow> jsnum" where
  "js_sqrt (Fin a) = (if a < 0 then NaN else Fin (sqrt a))"
| "js_sqrt PInf = PInf"
| "js_sqrt x = NaN"

text \<open>\<open>x || d\<close> on a number: \<open>d\<close> when \<open>x\<close> is 0 or NaN.\<close>

definition js_or :: "jsnum \<Rightarrow> jsnum \<Rightarrow> jsnum" where
  "js_or x d = (if x = NaN \<or> x = Fin 0 then d else x)"

text \<open>Reading \<open>a[j]\<close> in an arithmetic context: \<open>undefined\<close>, past the end, counts as NaN.\<close>

definition nth_num :: "jsnum list \<Rightarrow> nat \<Rightarrow> jsnum" where
  "nth_num xs j = (if j < length xs then xs ! j else NaN)"

text \<open>Writing \<open>a[i] = v\<close>: past the end the array grows, and the slots in between are holes,
  which read as \<open>undefined\<close>.\<close>

definition array_set :: "jsnum list \<Rightarrow> nat \<Rightarrow> jsnum \<Rightarrow> jsnum list" where
  "array_set xs i v =
     (if i < length xs then xs[i := v] else xs @ replicate (i - length xs) NaN @ [v])"

text \<open>The relative index of \<open>slice\<close>: NaN counts as 0, a negative index counts from the end,
  and the result is clamped to the length.\<close>

fun rel_index :: "nat \<Rightarrow> jsnum \<Rightarrow> nat" where
  "rel_index len NaN = 0"
| "rel_index len PInf = len"
| "rel_index len NInf = 0"
| "rel_index len (Fin a) =
     (let i = (if a < 0 then \<lceil>a\<rceil> else \<lfloor>a\<rfloor>) in
      if i < 0 then nat (max (int len + i) 0) else min (nat i) len)"

text \<open>\<open>arr.slice(0, e)\<close> and \<open>arr.slice(s)\<close>\<close>

definition slice_to :: "'a list \<Rightarrow> jsnum \<Rightarrow> 'a list" where
  "slice_to arr e = take (rel_index (length arr) e) arr"

definition slice_from :: "'a list \<Rightarrow> jsnum \<Rightarrow> 'a list" where
  "slice_from arr s = drop (rel_index (length arr) s) arr"

subsection \<open>Plain objects as dictionaries\<close>

text \<open>
  \<open>enc[k] = v\<close> on an object literal: the key \<open>__proto__\<close> is an accessor of
  \<open>Object.prototype\<close> whose setter ignores a number, so no own property appears; any other
  key is overwritten in place or appended.
\<close>

fun alist_put :: "string \<Rightarrow> 'v \<Rightarrow> 'v jsobj \<Rightarrow> 'v jsobj" where
  "alist_put k v [] = [(k, v)]"
| "alist_put k v (p # ps) = (if fst p = k then (k, v) # ps else p # alist_put k v ps)"

definition obj_set :: "'v jsobj \<Rightarrow> string \<Rightarrow> 'v \<Rightarrow> 'v jsobj" where
  "obj_set ob k v = (if k = proto then ob else alist_put k v ob)"

text \<open>\<open>enc[k]\<close> when \<open>Number.isInteger\<close> accepts it: an own property. The key \<open>__proto__\<close> reads
  the prototype object, and an absent key reads \<open>undefined\<close> or an inherited function.\<close>

definition obj_get_int :: "nat jsobj \<Rightarrow> string \<Rightarrow> nat option" where
  "obj_get_int ob k = (if k = proto then None else map_of ob k)"

text \<open>\<open>Object.keys\<close>: the keys that are array indices in ascending numeric order, then the
  other keys in insertion order.\<close>

definition is_digit :: "char \<Rightarrow> bool" where
  "is_digit c \<longleftrightarrow> CHR ''0'' \<le> c \<and> c \<le> CHR ''9''"

definition digits_val :: "string \<Rightarrow> nat" where
  "digits_val s = foldl (\<lambda>n c. 10 * n + (of_char c - 48)) 0 s"

definition is_array_index :: "string \<Rightarrow> bool" where
  "is_array_index s \<longleftrightarrow>
     s \<noteq> [] \<and> list_all is_digit s \<and> (s = ''0'' \<or> hd s \<noteq> CHR ''0'') \<and>
     digits_val s < 2 ^ 32 - 1"

definition Object_keys :: "'v jsobj \<Rightarrow> string list" where
  "Object_keys ob =
     (let ks = map fst ob in
      sort_key digits_val (filter is_array_index ks) @ filter (\<lambda>k. \<not> is_array_index k) ks)"

subsection \<open>\<open>#fitCategoricals\<close>\<close>

text \<open>\<open>r[c] ?? ''\<close>\<close>

definition cat_value :: "row \<Rightarrow> string \<Rightarrow> string" where
  "cat_value r c = (case r c of None \<Rightarrow> [] | Some v \<Rightarrow> v)"

text \<open>The distinct values of a column (a \<open>Set\<close>), sorted, each given its position.\<close>

definition fit_encoder :: "row list \<Rightarrow> string \<Rightarrow> nat jsobj" where
  "fit_encoder rows c =
     (let cats = sort (remdups (map (\<lambda>r. cat_value r c) rows)) in
      fold (\<lambda>(v, i) enc. obj_set enc v i) (zip cats [0..<length cats]) [])"

definition fitCategoricals :: "loader \<Rightarrow> row list \<Rightarrow> loader" where
  "fitCategoricals dl rows =
     dl\<lparr> encoders := fold (\<lambda>c m. m(c \<mapsto> fit_encoder rows c)) (catCols dl) Map.empty \<rparr>"

subsection \<open>\<open>#rowToFeatures\<close>\<close>

text \<open>
  \<open>Number(s)\<close> on a string is the host's conversion and is a parameter, \<open>toNumber\<close>, of the
  functions below; \<open>Number(r[col] ?? d)\<close> reads a field with a default.
\<close>

definition num_field :: "(string \<Rightarrow> jsnum) \<Rightarrow> row \<Rightarrow> string \<Rightarrow> real \<Rightarrow> jsnum" where
  "num_field toNumber r col d = (case r col of None \<Rightarrow> Fin d | Some s \<Rightarrow> toNumber s)"

definition base_features :: "(string \<Rightarrow> jsnum) \<Rightarrow> row \<Rightarrow> jsnum list" where
  "base_features toNumber r =
     map (\<lambda>col. let v = num_field toNumber r col 0 in if js_isFinite v then v else Fin 0) baseNum"

definition flag :: "bool \<Rightarrow> jsnum" where
  "flag b = (if b then Fin 1 else Fin 0)"

definition engineered :: "(string \<Rightarrow> jsnum) \<Rightarrow> row \<Rightarrow> jsnum list" where
  "engineered toNumber r =
     (let YA = js_max (Fin 1) (num_field toNumber r ''YearsAtCompany'' 0);
          TW = js_max (Fin 1) (num_field toNumber r ''TotalWorkingYears'' 0);
          YP = num_field toNumber r ''YearsSinceLastPromotion'' 0;
          JL = js_max (Fin 1) (num_field toNumber r ''JobLevel'' 1);
          MI = num_field toNumber r ''MonthlyIncome'' 0;
          JS = num_field toNumber r ''JobSatisfaction'' 0;
          DF = num_field toNumber r ''DistanceFromHome'' 0;
          OT = flag (cat_value r ''OverTime'' = ''Yes'');
          BT = cat_value r ''BusinessTravel'';
          MS = cat_value r ''MaritalStatus'';
          TenureRatio = js_div (num_field toNumber r ''YearsAtCompany'' 0) TW;
          NoPromotionRatio = js_div YP YA;
          IncomePerLevel = js_div MI JL;
          OvertimeStress = js_mul OT (js_sub (Fin 4) JS);
          TravelFreq = flag (BT = ''Travel_Frequently'');
          IsSingle = flag (MS = ''Single'');
          LongDistance = flag (js_lt (Fin 20) DF)
      in [TenureRatio, NoPromotionRatio, IncomePerLevel, OvertimeStress, TravelFreq,
          IsSingle, LongDistance])"

text \<open>One block: \<open>new Array(Object.keys(enc).length).fill(0)\<close>, then \<open>vec[idx] = 1\<close> when
  \<open>enc[r[c] ?? '']\<close> is an integer.\<close>

definition onehot_block :: "nat jsobj \<Rightarrow> string \<Rightarrow> jsnum list" where
  "onehot_block enc v =
     (let vec = replicate (length (Object_keys enc)) (Fin 0) in
      case obj_get_int enc v of None \<Rightarrow> vec | Some idx \<Rightarrow> array_set vec idx (Fin 1))"

text \<open>The loop over \<open>catCols\<close>; \<open>Object.keys\<close> of a missing encoder throws.\<close>

fun onehot :: "(string \<rightharpoonup> nat jsobj) \<Rightarrow> string list \<Rightarrow> row \<Rightarrow> error + jsnum list" where
  "onehot encs [] r = Inr []"
| "onehot encs (c # cs) r =
     (case encs c of
        None \<Rightarrow> Inl TypeError
      | Some enc \<Rightarrow>
          (case onehot encs cs r of
             Inl e \<Rightarrow> Inl e
           | Inr rest \<Rightarrow> Inr (onehot_block enc (cat_value r c) @ rest)))"

text \<open>
  The label: \<open>attritionMap[String(r[labelKey] || 'No')] ?? 0\<close>. The map is an object literal
  with the keys \<open>Yes\<close> and \<open>No\<close>; a name inherited from \<open>Object.prototype\<close> reads a function or
  an object, which is no number (NaN here), and any other name reads \<open>undefined\<close>, hence 0.
\<close>

definition object_prototype_names :: "string list" where
  "object_prototype_names =
     [''constructor'', ''__defineGetter__'', ''__defineSetter__'', ''hasOwnProperty'',
      ''__lookupGetter__'', ''__lookupSetter__'', ''isPrototypeOf'', ''propertyIsEnumerable'',
      ''toString'', ''valueOf'', ''__proto__'', ''toLocaleString'']"

definition label_of :: "row \<Rightarrow> jsnum" where
  "label_of r =
     (let s = (case r labelKey of None \<Rightarrow> ''No'' | Some v \<Rightarrow> if v = [] then ''No'' else v) in
      if s = ''Yes'' then Fin 1
      else if s = ''No'' then Fin 0
      else if s \<in> set object_prototype_names then NaN
      else Fin 0)"

definition rowToFeatures :: "(string \<Rightarrow> jsnum) \<Rightarrow> loader \<Rightarrow> row \<Rightarrow> error + (jsnum list \<times> jsnum)" where
  "rowToFeatures toNumber dl r =
     (case onehot (encoders dl) (catCols dl) r of
        Inl e \<Rightarrow> Inl e
      | Inr blocks \<Rightarrow> Inr (base_features toNumber r @ engineered toNumber r @ blocks, label_of r))"

text \<open>The feature order built by \<open>prepareTensors\<close>: the base numerics, the engineered names,
  then \<open>c__v\<close> for every key \<open>v\<close> of the encoder of every categorical column \<open>c\<close>.\<close>

fun onehot_names :: "(string \<rightharpoonup> nat jsobj) \<Rightarrow> string list \<Rightarrow> error + string list" where
  "onehot_names encs [] = Inr []"
| "onehot_names encs (c # cs) =
     (case encs c of
        None \<Rightarrow> Inl TypeError
      | Some enc \<Rightarrow>
          (case onehot_names encs cs of
             Inl e \<Rightarrow> Inl e
           | Inr rest \<Rightarrow> Inr (map (\<lambda>v. c @ ''__'' @ v) (Object_keys enc) @ rest)))"

definition build_featureOrder :: "loader \<Rightarrow> error + string list" where
  "build_featureOrder dl =
     (case onehot_names (encoders dl) (catCols dl) of
        Inl e \<Rightarrow> Inl e
      | Inr names \<Rightarrow> Inr (baseNum @ engineeredNames @ names))"

text \<open>The loop \<open>for (const r of this.raw)\<close> that fills \<open>feats\<close> and \<open>labels\<close>.\<close>

fun featurize :: "(string \<Rightarrow> jsnum) \<Rightarrow> loader \<Rightarrow> row list \<Rightarrow> error + (jsnum list \<times> jsnum) list" where
  "featurize toNumber dl [] = Inr []"
| "featurize toNumber dl (r # rs) =
     (case rowToFeatures toNumber dl r of
        Inl e \<Rightarrow> Inl e
      | Inr vy \<Rightarrow>
          (case featurize toNumber dl rs of Inl e \<Rightarrow> Inl e | Inr rest \<Rightarrow> Inr (vy # rest)))"

subsection \<open>The stratified split of \<open>prepareTensors\<close>\<close>

text \<open>
  The generator of \<open>shuffle\<close>: \<open>seed = (seed * 1664525 + 1013904223) % 2**32\<close>. All values
  stay below \<open>2^53\<close>, so the arithmetic is that of the naturals. \<open>Math.floor(rand() * (i + 1))\<close>
  is \<open>seed * (i + 1) div 2^32\<close> (the product is exact for arrays of fewer than \<open>2^21\<close>
  elements).
\<close>

definition lcg :: "nat \<Rightarrow> nat" where
  "lcg seed = (seed * 1664525 + 1013904223) mod 2 ^ 32"

text \<open>\<open>[arr[i], arr[j]] = [arr[j], arr[i]]\<close>\<close>

definition swap :: "'a list \<Rightarrow> nat \<Rightarrow> nat \<Rightarrow> 'a list" where
  "swap arr i j = (arr[i := arr ! j])[j := arr ! i]"

text \<open>The loop \<open>for (let i = arr.length - 1; i > 0; i--)\<close>, with the seed so far.\<close>

fun shuffle_loop :: "nat \<Rightarrow> nat \<Rightarrow> 'a list \<Rightarrow> 'a list" where
  "shuffle_loop seed 0 arr = arr"
| "shuffle_loop seed (Suc k) arr =
     (let seed' = lcg seed; j = seed' * (Suc k + 1) div 2 ^ 32
      in shuffle_loop seed' k (swap arr (Suc k) j))"

definition shuffle :: "'a list \<Rightarrow> 'a list" where
  "shuffle arr = shuffle_loop 1337 (length arr - 1) arr"

definition posIdx_of :: "jsnum list \<Rightarrow> nat list" where
  "posIdx_of labels = filter (\<lambda>i. labels ! i = Fin 1) [0..<length labels]"

definition negIdx_of :: "jsnum list \<Rightarrow> nat list" where
  "negIdx_of labels = filter (\<lambda>i. labels ! i \<noteq> Fin 1) [0..<length labels]"

text \<open>\<open>Math.min(Math.max(testSplit, 0.05), 0.9)\<close>\<close>

definition clamp_split :: "jsnum \<Rightarrow> jsnum" where
  "clamp_split testSplit = js_min (js_max testSplit (Fin 0.05)) (Fin 0.9)"

definition nTest_of :: "nat \<Rightarrow> jsnum \<Rightarrow> jsnum" where
  "nTest_of n testSplit = js_max (Fin 1) (js_floor (js_mul (Fin (real n)) (clamp_split testSplit)))"

definition testPos_of :: "nat \<Rightarrow> nat \<Rightarrow> jsnum \<Rightarrow> jsnum" where
  "testPos_of n p nTest =
     (let testPos = js_round (js_mul nTest (js_div (Fin (real p)) (js_max (Fin 1) (Fin (real n)))))
      in js_max (Fin 0) (js_min testPos (Fin (real p))))"

definition testNeg_of :: "nat \<Rightarrow> jsnum \<Rightarrow> jsnum \<Rightarrow> jsnum" where
  "testNeg_of q nTest testPos = js_min (js_sub nTest testPos) (Fin (real q))"

text \<open>The pair \<open>(trainIdx, testIdx)\<close>.\<close>

definition stratified_split :: "jsnum list \<Rightarrow> jsnum \<Rightarrow> nat list \<times> nat list" where
  "stratified_split labels testSplit =
     (let posIdx = shuffle (posIdx_of labels);
          negIdx = shuffle (negIdx_of labels);
          nTest = nTest_of (length labels) testSplit;
          testPos = testPos_of (length labels) (length posIdx) nTest;
          testNeg = testNeg_of (length negIdx) nTest testPos;
          testIdx = slice_to posIdx testPos @ slice_to negIdx testNeg;
          trainIdx = slice_from posIdx testPos @ slice_from negIdx testNeg
      in (trainIdx, testIdx))"

subsection \<open>\<open>#fitScaler\<close> and \<open>#applyScaler\<close>\<close>

definition column_sum :: "(jsnum \<Rightarrow> jsnum) \<Rightarrow> jsnum list list \<Rightarrow> nat \<Rightarrow> jsnum" where
  "column_sum f X j = foldl (\<lambda>s row. js_add s (f (nth_num row j))) (Fin 0) X"

definition fitScaler :: "jsnum list list \<Rightarrow> scaler_t" where
  "fitScaler X =
     (let d = (case X of [] \<Rightarrow> 0 | r # _ \<Rightarrow> length r);
          n = (if length X = 0 then 1 else length X);
          mu = (\<lambda>j. js_div (column_sum (\<lambda>v. v) X j) (Fin (real n)));
          sd = (\<lambda>j. js_sqrt (js_max (Fin (1 / 10 ^ 9))
                  (js_sub (js_div (column_sum (\<lambda>v. js_mul v v) X j) (Fin (real n)))
                          (js_mul (mu j) (mu j)))))
      in \<lparr> mean = map mu [0..<d], std = map sd [0..<d] \<rparr>)"

definition applyScaler :: "scaler_t \<Rightarrow> jsnum list list \<Rightarrow> jsnum list list" where
  "applyScaler sc X =
     map (\<lambda>row. map (\<lambda>(v, j). js_div (js_sub v (nth_num (mean sc) j)) (nth_num (std sc) j))
                   (zip row [0..<length row])) X"

subsection \<open>\<open>#augmentPositivesOnScaled\<close>\<close>

text \<open>
  The augmenter writes into arrays, so the row arrays live in a store: a store is the list of
  all row arrays allocated so far, and an array is named by its position. A matrix is a list
  of such names; \<open>base.slice()\<close> allocates. The label rows \<open>[y]\<close> are never written to and
  are kept as values.

  \<open>gauss()\<close> draws from \<open>Math.random\<close>; its successive results are the stream \<open>gauss\<close>,
  read at a counter.
\<close>

type_synonym store = "jsnum list list"

text \<open>\<open>clone[d] = base[d] + gauss() * noiseStd\<close> for \<open>d < numDim\<close>, on a copy of \<open>base\<close>.\<close>

definition perturb :: "jsnum list \<Rightarrow> nat \<Rightarrow> jsnum \<Rightarrow> (nat \<Rightarrow> jsnum) \<Rightarrow> nat \<Rightarrow> jsnum list" where
  "perturb base numDim noise gauss c =
     map (\<lambda>d. js_add (nth_num base d) (js_mul (gauss (c + d)) noise)) [0..<numDim] @
     drop numDim base"

text \<open>\<open>ytr[i][0] === 1\<close>\<close>

definition is_pos :: "jsnum list \<Rightarrow> bool" where
  "is_pos y \<longleftrightarrow> (case y of [] \<Rightarrow> False | v # _ \<Rightarrow> v = Fin 1)"

text \<open>
  The synthesis loop \<open>for (let k = 0; k < need; k++)\<close>, with the number of rounds still to
  run. \<open>posIdx[k % P]\<close> with \<open>P = 0\<close> reads \<open>undefined\<close>, as does a row that the matrix does not
  have, and \<open>undefined.slice()\<close> throws.
\<close>

fun synth :: "nat \<Rightarrow> nat \<Rightarrow> nat list \<Rightarrow> nat list \<Rightarrow> nat \<Rightarrow> jsnum \<Rightarrow> (nat \<Rightarrow> jsnum) \<Rightarrow>
    store \<times> nat list \<times> jsnum list list \<Rightarrow> error + (store \<times> nat list \<times> jsnum list list)" where
  "synth 0 k posIdx Xtr numDim noise gauss acc = Inr acc"
| "synth (Suc m) k posIdx Xtr numDim noise gauss (h, outX, outY) =
     (if length posIdx = 0 then Inl TypeError
      else let j = posIdx ! (k mod length posIdx) in
        if \<not> j < length Xtr then Inl TypeError
        else if \<not> Xtr ! j < length h then Inl TypeError
        else let base = h ! (Xtr ! j);
                 clone = perturb base numDim noise gauss (k * numDim)
             in synth m (Suc k) posIdx Xtr numDim noise gauss
                  (h @ [clone], outX @ [length h], outY @ [[Fin 1]]))"

definition wantPos_of :: "jsnum \<Rightarrow> nat \<Rightarrow> jsnum" where
  "wantPos_of ratio n = js_floor (js_div (js_mul ratio (Fin (real n))) (js_sub (Fin 1) ratio))"

definition need_of :: "jsnum \<Rightarrow> nat \<Rightarrow> nat \<Rightarrow> jsnum" where
  "need_of ratio n p = js_max (Fin 0) (js_sub (wantPos_of ratio n) (Fin (real p)))"

text \<open>The number of rounds of \<open>for (k = 0; k < need; k++)\<close>; with \<open>need = Infinity\<close> the loop
  does not end.\<close>

fun rounds :: "jsnum \<Rightarrow> nat option" where
  "rounds (Fin a) = Some (nat \<lceil>a\<rceil>)"
| "rounds PInf = None"
| "rounds x = Some 0"

datatype 'a outcome = Returns 'a | Throws error | Diverges

definition augmentPositivesOnScaled ::
  "store \<Rightarrow> nat list \<Rightarrow> jsnum list list \<Rightarrow> nat \<Rightarrow> jsnum \<Rightarrow> jsnum \<Rightarrow> (nat \<Rightarrow> jsnum) \<Rightarrow>
     (store \<times> nat list \<times> jsnum list list) outcome" where
  "augmentPositivesOnScaled h Xtr ytr numDim ratio noise gauss =
     (let posIdx = filter (\<lambda>i. is_pos (ytr ! i)) [0..<length ytr];
          negIdx = filter (\<lambda>i. \<not> is_pos (ytr ! i)) [0..<length ytr];
          P = length posIdx; N = length negIdx
      in if P = 0 then Returns (h, Xtr, ytr)
         else let need = need_of ratio N P in
           if js_le need (Fin 0) then Returns (h, Xtr, ytr)
           else (case rounds need of
                   None \<Rightarrow> Diverges
                 | Some m \<Rightarrow>
                     (case synth m 0 posIdx Xtr numDim noise gauss (h, Xtr, ytr) of
                        Inl e \<Rightarrow> Throws e
                      | Inr res \<Rightarrow> Returns res)))"

subsection \<open>\<open>prepareTensors\<close>\<close>

text \<open>The argument object \<open>{ testSplit = 0.2, augment = null }\<close>: an absent field is \<open>None\<close>.\<close>

record prep_cfg =
  testSplit :: "jsnum option"
  augment :: "aug_cfg option"

text \<open>
  The returned object. The tensors are kept as the matrices they are built from: the tensor
  constructor of the host library, which rejects an empty or a ragged matrix, is not part of
  the model, and "returns" below is meant up to that last step. The locals \<open>trainIdx\<close> and
  \<open>testIdx\<close> are returned as well, so that properties of the split can be stated.
\<close>

record prepared =
  xTrain :: "jsnum list list"
  yTrain :: "jsnum list list"
  xTest :: "jsnum list list"
  yTest :: "jsnum list list"
  testMeta :: "row option list"
  featureOrder_out :: "string list"
  trainIdx :: "nat list"
  testIdx :: "nat list"

definition aug_ratio :: "aug_cfg \<Rightarrow> jsnum" where
  "aug_ratio a = js_min (js_max (js_or (targetRatio a) (Fin 0.5)) (Fin 0.2)) (Fin 0.8)"

definition aug_noise :: "aug_cfg \<Rightarrow> jsnum" where
  "aug_noise a = js_min (js_max (js_or (noiseStd a) (Fin 0.05)) (Fin 0)) (Fin 0.2)"

definition nth_opt :: "'a list \<Rightarrow> nat \<Rightarrow> 'a option" where
  "nth_opt xs i = (if i < length xs then Some (xs ! i) else None)"

text \<open>The optional augmentation step, on the store that holds the scaled rows.\<close>

definition maybe_augment ::
  "(nat \<Rightarrow> jsnum) \<Rightarrow> aug_cfg \<Rightarrow> store \<Rightarrow> nat list \<Rightarrow> jsnum list list \<Rightarrow>
     (store \<times> nat list \<times> jsnum list list) outcome" where
  "maybe_augment gauss a h Xtr ytr =
     (if enable a
      then augmentPositivesOnScaled h Xtr ytr (length baseNum + length engineeredNames)
             (aug_ratio a) (aug_noise a) gauss
      else Returns (h, Xtr, ytr))"

text \<open>
  The part of \<open>prepareTensors\<close> after \<open>feats\<close> and \<open>labels\<close> are filled: split, scaling,
  augmentation and the returned object. The scaled training rows are allocated first, the
  scaled test rows after them.
\<close>

definition assemble ::
  "(nat \<Rightarrow> jsnum) \<Rightarrow> loader \<Rightarrow> (jsnum list \<times> jsnum) list \<Rightarrow> jsnum \<Rightarrow> (loader \<times> prepared) outcome" where
  "assemble gauss dl fl ts =
     (let feats = map fst fl;
          labels = map snd fl;
          split = stratified_split labels ts;
          trainI = fst split;
          testI = snd split;
          Xtr = map (\<lambda>i. feats ! i) trainI;
          ytr = map (\<lambda>i. [labels ! i]) trainI;
          Xte = map (\<lambda>i. feats ! i) testI;
          yte = map (\<lambda>i. [labels ! i]) testI;
          sc = fitScaler Xtr;
          XtrS = applyScaler sc Xtr;
          XteS = applyScaler sc Xte;
          trA = [0..<length XtrS];
          teA = [length XtrS..<length XtrS + length XteS]
      in case maybe_augment gauss (augCfg dl) (XtrS @ XteS) trA ytr of
           Diverges \<Rightarrow> Diverges
         | Throws e \<Rightarrow> Throws e
         | Returns (h1, X, Y) \<Rightarrow>
             Returns
               (dl\<lparr> scaler := Some sc, kept := baseNum @ engineeredNames @ catCols dl \<rparr>,
                \<lparr> xTrain = map (\<lambda>a. h1 ! a) X, yTrain = Y,
                  xTest = map (\<lambda>a. h1 ! a) teA, yTest = yte,
                  testMeta = map (nth_opt (metaRows dl)) testI,
                  featureOrder_out = featureOrder dl,
                  trainIdx = trainI, testIdx = testI \<rparr>))"

definition default_aug :: aug_cfg where
  "default_aug = \<lparr> enable = False, targetRatio = NaN, noiseStd = NaN \<rparr>"

definition prepareTensors ::
  "(string \<Rightarrow> jsnum) \<Rightarrow> (nat \<Rightarrow> jsnum) \<Rightarrow> loader \<Rightarrow> prep_cfg \<Rightarrow> (loader \<times> prepared) outcome" where
  "prepareTensors toNumber gauss dl cfg =
     (if raw dl = [] then Throws DatasetNotLoaded
      else
        let dl1 = dl\<lparr> augCfg := (case augment cfg of None \<Rightarrow> default_aug | Some a \<Rightarrow> a) \<rparr>;
            dl2 = fitCategoricals dl1 (raw dl1);
            ts = (case testSplit cfg of None \<Rightarrow> Fin 0.2 | Some t \<Rightarrow> t)
        in (case build_featureOrder dl2 of
              Inl e \<Rightarrow> Throws e
            | Inr fo \<Rightarrow>
               (case featurize toNumber (dl2\<lparr> featureOrder := fo \<rparr>) (raw dl2) of
                  Inl e \<Rightarrow> Throws e
                | Inr fl \<Rightarrow> assemble gauss (dl2\<lparr> featureOrder := fo \<rparr>) fl ts)))"

subsection \<open>What \<open>prepareTensors\<close> computes, written out\<close>

text \<open>
  The definitions of this subsection are not code of the repository: they name the values
  that \<open>prepareTensors\<close> is proved to compute (lemmas \<open>prepareTensors_assemble\<close> and
  \<open>prepareTensors_result\<close>), as functions of the loaded rows, the categorical columns and
  the configuration.
\<close>

text \<open>The feature vector of a row once the encoders are fit on \<open>rows\<close>, and the feature
  names.\<close>

definition features_of :: "(string \<Rightarrow> jsnum) \<Rightarrow> row list \<Rightarrow> string list \<Rightarrow> row \<Rightarrow> jsnum list" where
  "features_of toNumber rows cs r =
     base_features toNumber r @ engineered toNumber r @
     concat (map (\<lambda>c. onehot_block (fit_encoder rows c) (cat_value r c)) cs)"

definition names_of :: "row list \<Rightarrow> string list \<Rightarrow> string list" where
  "names_of rows cs =
     baseNum @ engineeredNames @
     concat (map (\<lambda>c. map (\<lambda>v. c @ ''__'' @ v) (Object_keys (fit_encoder rows c))) cs)"

text \<open>The loader after the encoders are fit and the feature order is stored.\<close>

definition fitted :: "loader \<Rightarrow> prep_cfg \<Rightarrow> loader" where
  "fitted dl cfg =
     (fitCategoricals (dl\<lparr> augCfg := (case augment cfg of None \<Rightarrow> default_aug | Some a \<Rightarrow> a) \<rparr>) (raw dl))
       \<lparr> featureOrder := names_of (raw dl) (catCols dl) \<rparr>"

text \<open>The default of the parameter \<open>testSplit\<close>.\<close>

definition split_arg :: "prep_cfg \<Rightarrow> jsnum" where
  "split_arg cfg = (case testSplit cfg of None \<Rightarrow> Fin 0.2 | Some t \<Rightarrow> t)"

text \<open>The arrays \<open>feats\<close> and \<open>labels\<close>, the split, the unscaled rows and label rows at a list
  of indices, and the fitted scaler.\<close>

definition feats_labels :: "(string \<Rightarrow> jsnum) \<Rightarrow> loader \<Rightarrow> (jsnum list \<times> jsnum) list" where
  "feats_labels toNumber dl =
     map (\<lambda>r. (features_of toNumber (raw dl) (catCols dl) r, label_of r)) (raw dl)"

definition split_of :: "(string \<Rightarrow> jsnum) \<Rightarrow> loader \<Rightarrow> prep_cfg \<Rightarrow> nat list \<times> nat list" where
  "split_of toNumber dl cfg = stratified_split (map snd (feats_labels toNumber dl)) (split_arg cfg)"

definition rows_at :: "(string \<Rightarrow> jsnum) \<Rightarrow> loader \<Rightarrow> nat list \<Rightarrow> jsnum list list" where
  "rows_at toNumber dl idx = map (\<lambda>i. map fst (feats_labels toNumber dl) ! i) idx"

definition labels_at :: "(string \<Rightarrow> jsnum) \<Rightarrow> loader \<Rightarrow> nat list \<Rightarrow> jsnum list list" where
  "labels_at toNumber dl idx = map (\<lambda>i. [map snd (feats_labels toNumber dl) ! i]) idx"

definition scaler_of :: "(string \<Rightarrow> jsnum) \<Rightarrow> loader \<Rightarrow> prep_cfg \<Rightarrow> scaler_t" where
  "scaler_of toNumber dl cfg = fitScaler (rows_at toNumber dl (fst (split_of toNumber dl cfg)))"

subsection \<open>Example inputs\<close>

text \<open>Three loaded rows with a label only, a configuration with augmentation switched on,
  and a conversion of digit strings for \<open>toNumber\<close>.\<close>

definition demo_rows :: "row list" where
  "demo_rows = [[''Attrition'' \<mapsto> ''Yes''], [''Attrition'' \<mapsto> ''No''], [''Attrition'' \<mapsto> ''No'']]"

definition demo_loader :: loader where
  "demo_loader = new_loader\<lparr> raw := demo_rows \<rparr>"

definition demo_cfg :: prep_cfg where
  "demo_cfg = \<lparr> testSplit = Some (Fin 0.2), augment = Some \<lparr> enable = True, targetRatio = Fin 0.5, noiseStd = Fin 0.05 \<rparr> \<rparr>"

subsection \<open>The sizes of the split, in integers\<close>





text \<open>A conversion for the examples: the empty string is 0, a digit string its value, any
  other string NaN.\<close>

definition digits_toNumber :: "string \<Rightarrow> jsnum" where
  "digits_toNumber s =
     (if s = [] then Fin 0 else if list_all is_digit s then Fin (real (digits_val s)) else NaN)"

text \<open>A file whose categorical column \<open>Department\<close> holds the value \<open>__proto__\<close>, and the
  loader that \<open>fromFile\<close> returns for it.\<close>

definition proto_csv :: string where
  "proto_csv = ''Attrition,Department\<newline>No,Sales\<newline>No,__proto__\<newline>No,zeta''"

definition proto_loader :: loader where
  "proto_loader = (case fromFile new_loader (Readable proto_csv) of Inr dl \<Rightarrow> dl | Inl e \<Rightarrow> new_loader)"

text \<open>The sorted distinct values of a column, \<open>cats\<close> in \<open>#fitCategoricals\<close>.\<close>

definition col_values :: "row list \<Rightarrow> string \<Rightarrow> string list" where
  "col_values rows c = sort (remdups (map (\<lambda>r. cat_value r c) rows))"

subsection \<open>\<open>GRUClassifier.fit\<close>\<close>

text \<open>
  The training itself is done by the host library; what the repository adds is the callback
  \<open>onEpochEnd\<close> and the clamping of the arguments. The library is modelled by its contract:
  it runs the epochs \<open>0, 1, \<dots>\<close> up to the given number, hands the logs of each epoch to the
  callback, and stops after an epoch whose callback has set \<open>stopTraining\<close> (the flag is
  cleared when training starts). The logs of epoch \<open>k\<close> are \<open>logs k\<close>, a parameter.
  The arguments \<open>epochs\<close> and \<open>patience\<close> are the values after the defaults (45 and 6) are
  applied. The user callback \<open>onEpoch\<close> and the yield to the host are not modelled.
\<close>


















subsection \<open>Binary64 arithmetic for the threshold scan\<close>

text \<open>
  The scan \<open>for (let t = 0.10; t <= 0.90; t += 0.01)\<close> adds in binary64, and which thresholds
  it visits depends on the rounding. A non-negative binary64 value is kept as a fraction
  \<open>(p, q)\<close> of integers with \<open>q > 0\<close> (not reduced); \<open>rnd p q\<close> is the binary64 value nearest
  to \<open>p / q\<close>, ties to even: 53 significant bits, with the spacing of the subnormal
  numbers below \<open>2^-1022\<close>. Every operation is the exact operation followed by \<open>rnd\<close>.
  Negative numbers, overflow and NaN do not occur in the scan and are not part of this type.
\<close>

type_synonym dbl = "int \<times> int"

text \<open>\<open>p / q\<close> rounded to the nearest integer, a tie to the even one.\<close>

definition round_even :: "int \<Rightarrow> int \<Rightarrow> int" where
  "round_even p q =
     (let d = p div q; r = p mod q
      in if 2 * r < q then d else if q < 2 * r then d + 1 else if even d then d else d + 1)"

text \<open>With \<open>2^e \<le> p / q < 2^(e+1)\<close> the result is a multiple of \<open>2^(e-52)\<close>.\<close>

definition rnd :: "int \<Rightarrow> int \<Rightarrow> dbl" where
  "rnd p q =
     (if p = 0 then (0, 1)
      else
        let e0 = bitlen p - bitlen q;
            below = (if 0 \<le> e0 then p < q * 2 ^ nat e0 else p * 2 ^ nat (- e0) < q);
            e = max (if below then e0 - 1 else e0) (- 1022);
            k = 52 - e
        in if 0 \<le> k then (round_even (p * 2 ^ nat k) q, 2 ^ nat k)
           else (round_even p (q * 2 ^ nat (- k)) * 2 ^ nat (- k), 1))"

definition dadd :: "dbl \<Rightarrow> dbl \<Rightarrow> dbl" where
  "dadd x y = rnd (fst x * snd y + fst y * snd x) (snd x * snd y)"

definition dmul :: "dbl \<Rightarrow> dbl \<Rightarrow> dbl" where
  "dmul x y = rnd (fst x * fst y) (snd x * snd y)"

definition ddiv :: "dbl \<Rightarrow> dbl \<Rightarrow> dbl" where
  "ddiv x y = rnd (fst x * snd y) (snd x * fst y)"

definition dle :: "dbl \<Rightarrow> dbl \<Rightarrow> bool" where
  "dle x y \<longleftrightarrow> fst x * snd y \<le> fst y * snd x"

definition dlt :: "dbl \<Rightarrow> dbl \<Rightarrow> bool" where
  "dlt x y \<longleftrightarrow> fst x * snd y < fst y * snd x"

definition dmax :: "dbl \<Rightarrow> dbl \<Rightarrow> dbl" where
  "dmax x y = (if dlt x y then y else x)"

subsection \<open>\<open>App.#autoThreshold\<close>\<close>

text \<open>
  The values that the loop variable \<open>t\<close> takes, from \<open>t\<close> on: the loop may in principle run
  for ever, so it carries fuel, and \<open>None\<close> means that the fuel ran out. The literals
  \<open>0.10\<close>, \<open>0.90\<close> and \<open>0.01\<close> are \<open>rnd 1 10\<close>, \<open>rnd 9 10\<close> and \<open>rnd 1 100\<close>.
\<close>

fun scan_from :: "nat \<Rightarrow> dbl \<Rightarrow> dbl list option" where
  "scan_from 0 t = None"
| "scan_from (Suc n) t =
     (if dle t (rnd 9 10) then map_option (Cons t) (scan_from n (dadd t (rnd 1 100))) else Some [])"

definition candidates :: "dbl list option" where
  "candidates = scan_from 100 (rnd 1 10)"

text \<open>The inner loop: the counts \<open>(tp, fp, fn)\<close> at threshold \<open>t\<close>. A probability row
  without a label row reads \<open>undefined\<close>, and indexing it throws.\<close>

fun confusion :: "dbl \<Rightarrow> dbl list \<Rightarrow> int list \<Rightarrow> error + (nat \<times> nat \<times> nat)" where
  "confusion t [] y = Inr (0, 0, 0)"
| "confusion t (pr # p) [] = Inl TypeError"
| "confusion t (pr # p) (gt # y) =
     (case confusion t p y of
        Inl e \<Rightarrow> Inl e
      | Inr (tp, fp, fn) \<Rightarrow>
          Inr (if dle t pr \<and> gt = 1 then (tp + 1, fp, fn)
               else if dle t pr \<and> gt = 0 then (tp, fp + 1, fn)
               else if \<not> dle t pr \<and> gt = 1 then (tp, fp, fn + 1)
               else (tp, fp, fn)))"

text \<open>\<open>prec\<close>, \<open>rec\<close> and \<open>f1 = 2*prec*rec / Math.max(1e-9, prec+rec)\<close>.\<close>

definition f1_of :: "nat \<Rightarrow> nat \<Rightarrow> nat \<Rightarrow> dbl" where
  "f1_of tp fp fn =
     (let prec = rnd (int tp) (max 1 (int tp + int fp));
          rec = rnd (int tp) (max 1 (int tp + int fn))
      in ddiv (dmul (dmul (2, 1) prec) rec) (dmax (rnd 1 (10 ^ 9)) (dadd prec rec)))"

text \<open>\<open>+t.toFixed(2)\<close>: the nearest multiple of 0.01 (of two, the larger), read back as a
  number.\<close>

definition toFixed2 :: "dbl \<Rightarrow> dbl" where
  "toFixed2 t = rnd ((200 * fst t + snd t) div (2 * snd t)) 100"

text \<open>The variable \<open>best\<close>, and the body of the loop run over a list of thresholds.\<close>

record best_t =
  thr :: dbl
  f1 :: dbl

fun scan_best :: "dbl list \<Rightarrow> dbl list \<Rightarrow> int list \<Rightarrow> best_t \<Rightarrow> error + best_t" where
  "scan_best [] p y cur = Inr cur"
| "scan_best (t # ts) p y cur =
     (case confusion t p y of
        Inl e \<Rightarrow> Inl e
      | Inr (tp, fp, fn) \<Rightarrow>
          scan_best ts p y
            (if dlt (f1 cur) (f1_of tp fp fn) then \<lparr> thr = toFixed2 t, f1 = f1_of tp fp fn \<rparr>
             else cur))"

text \<open>\<open>#autoThreshold\<close>: without a dataset it returns at once; otherwise it scans, starting
  from \<open>{ thr: 0.5, f1: 0 }\<close>. The result is the value of \<open>best\<close> that is shown.\<close>

definition autoThreshold :: "(dbl list \<times> int list) option \<Rightarrow> best_t option outcome" where
  "autoThreshold dataset =
     (case dataset of
        None \<Rightarrow> Returns None
      | Some (p, y) \<Rightarrow>
          (case candidates of
             None \<Rightarrow> Diverges
           | Some ts \<Rightarrow>
               (case scan_best ts p y \<lparr> thr = rnd 1 2, f1 = (0, 1) \<rparr> of
                  Inl e \<Rightarrow> Throws e
                | Inr b \<Rightarrow> Returns (Some b))))"

section \<open>Properties\<close>

subsection \<open>Loading\<close>

lemma length_parse_rows:
  "length (parse_rows hs ls) = length (filter (\<lambda>l. length (split_on CHR '','' l) = length hs) ls)"
  by (induction ls) (simp_all add: Let_def)

lemma length_csv_lines_tl: "length (csv_lines text) < 2 \<longleftrightarrow> length (data_lines text) < 1"
  by (cases "csv_lines text") (simp_all add: data_lines_def)

text \<open>
  Claim C3. Loading a text fails exactly when the label column \<open>Attrition\<close> is not in the
  header or there is no data line (a non-empty line after the header); the failure is then
  one of the two schema errors. When loading succeeds, the loaded rows are the well-formed
  data lines, one row each: lines with another field count are skipped and do not make
  loading fail.
\<close>

theorem fromFile_schema_error:
  "((\<exists>e. fromFile dl (Readable text) = Inl e) \<longleftrightarrow>
      labelKey \<notin> set (csv_headers text) \<or> length (data_lines text) < 1) \<and>
   (\<forall>e. fromFile dl (Readable text) = Inl e \<longrightarrow>
      e = CsvHasNoData \<or> e = MissingRequiredColumn ''Attrition'') \<and>
   (\<forall>dl'. fromFile dl (Readable text) = Inr dl' \<longrightarrow>
      length (raw dl') = length (filter (well_formed text) (data_lines text)))"
proof -
  show ?thesis
  proof (cases "length (csv_lines text) < 2")
    case True
    then have "fromFile dl (Readable text) = Inl CsvHasNoData"
      by (simp add: fromFile_def parseCSV_def)
    with True show ?thesis
      by (simp add: length_csv_lines_tl)
  next
    case False
    then have nd: "\<not> length (data_lines text) < 1"
      by (simp add: length_csv_lines_tl)
    have p: "parseCSV text = Inr (csv_headers text, parse_rows (csv_headers text) (data_lines text))"
      using False
      by (cases "csv_lines text") (simp_all add: parseCSV_def csv_headers_def data_lines_def Let_def)
    show ?thesis
    proof (cases "labelKey \<in> set (csv_headers text)")
      case True
      with p nd show ?thesis
        by (simp add: fromFile_def Let_def length_parse_rows well_formed_def [abs_def])
    next
      case False
      with p nd show ?thesis
        by (simp add: fromFile_def labelKey_def)
    qed
  qed
qed

text \<open>A header, one good line and one line with a field too many: one row is loaded.\<close>

theorem fromFile_schema_error_witness:
  "\<not> (\<exists>e. fromFile new_loader (Readable ''Attrition,Age\<newline>Yes,41\<newline>No,3,7'') = Inl e) \<and>
   length (filter (well_formed ''Attrition,Age\<newline>Yes,41\<newline>No,3,7'')
             (data_lines ''Attrition,Age\<newline>Yes,41\<newline>No,3,7'')) = 1"
proof -
  have l: "csv_lines ''Attrition,Age\<newline>Yes,41\<newline>No,3,7'' = [''Attrition,Age'', ''Yes,41'', ''No,3,7'']"
    by (simp add: csv_lines_def replace_cr_def LF_def CR_def)
  have h: "csv_headers ''Attrition,Age\<newline>Yes,41\<newline>No,3,7'' = [''Attrition'', ''Age'']"
    by (simp add: csv_headers_def l trim_def is_space_def)
  have d: "data_lines ''Attrition,Age\<newline>Yes,41\<newline>No,3,7'' = [''Yes,41'', ''No,3,7'']"
    by (simp add: data_lines_def l)
  show ?thesis
    using fromFile_schema_error [of new_loader "''Attrition,Age\<newline>Yes,41\<newline>No,3,7''"]
    by (simp add: h d labelKey_def well_formed_def)
qed

subsection \<open>The shuffle and the split\<close>

lemma lcg_less: "lcg s < 2 ^ 32"
  by (simp add: lcg_def)

lemma shuffle_index_le: "s < 2 ^ 32 \<Longrightarrow> s * (Suc k + 1) div 2 ^ 32 \<le> Suc k"
proof -
  assume "s < 2 ^ 32"
  then have "s * (Suc k + 1) < 2 ^ 32 * (Suc k + 1)"
    by (rule mult_strict_right_mono) simp
  then have "s * (Suc k + 1) div 2 ^ 32 < Suc k + 1"
    by (simp add: less_mult_imp_div_less mult.commute)
  then show ?thesis by simp
qed

lemma mset_swap': "i < length arr \<Longrightarrow> j < length arr \<Longrightarrow> mset (swap arr i j) = mset arr"
  unfolding swap_def by (rule mset_swap)

lemma length_swap [simp]: "length (swap arr i j) = length arr"
  by (simp add: swap_def)

lemma mset_shuffle_loop: "k < length arr \<Longrightarrow> mset (shuffle_loop seed k arr) = mset arr"
proof (induction k arbitrary: seed arr)
  case 0
  then show ?case by simp
next
  case (Suc k)
  have j: "lcg seed * (Suc k + 1) div 2 ^ 32 \<le> Suc k"
    by (rule shuffle_index_le [OF lcg_less])
  with Suc.prems have "mset (swap arr (Suc k) (lcg seed * (Suc k + 1) div 2 ^ 32)) = mset arr"
    by (intro mset_swap') simp_all
  with Suc show ?case
    by (simp add: Let_def)
qed

lemma mset_shuffle: "mset (shuffle arr) = mset arr"
proof (cases arr)
  case Nil
  then show ?thesis by (simp add: shuffle_def)
next
  case (Cons a as)
  then show ?thesis
    by (simp add: shuffle_def mset_shuffle_loop del: mset.simps)
qed


lemma slice_to_from: "slice_to arr k @ slice_from arr k = arr"
  by (simp add: slice_to_def slice_from_def)

lemma mset_pos_neg: "mset (posIdx_of ls) + mset (negIdx_of ls) = mset [0..<length ls]"
  unfolding posIdx_of_def negIdx_of_def by (simp only: mset_filter multiset_partition [symmetric])

lemma mset_stratified_split:
  "mset (fst (stratified_split ls ts) @ snd (stratified_split ls ts)) = mset [0..<length ls]"
proof -
  let ?p = "shuffle (posIdx_of ls)" and ?n = "shuffle (negIdx_of ls)"
  let ?nT = "nTest_of (length ls) ts"
  let ?tp = "testPos_of (length ls) (length ?p) ?nT"
  let ?tn = "testNeg_of (length ?n) ?nT ?tp"
  have "mset (fst (stratified_split ls ts) @ snd (stratified_split ls ts)) =
        mset (slice_to ?p ?tp @ slice_from ?p ?tp) + mset (slice_to ?n ?tn @ slice_from ?n ?tn)"
    by (simp add: stratified_split_def Let_def)
  also have "\<dots> = mset (posIdx_of ls) + mset (negIdx_of ls)"
    by (simp only: slice_to_from mset_shuffle)
  finally show ?thesis
    by (simp only: mset_pos_neg)
qed

subsection \<open>\<open>prepareTensors\<close> up to the split\<close>

lemma fold_upd_map:
  "fold (\<lambda>c m. m(c \<mapsto> f c)) cs m0 = (\<lambda>k. if k \<in> set cs then Some (f k) else m0 k)"
  by (induction cs arbitrary: m0) (auto simp: fun_eq_iff)

lemma encoders_fitCategoricals:
  "encoders (fitCategoricals dl rows) =
     (\<lambda>c. if c \<in> set (catCols dl) then Some (fit_encoder rows c) else None)"
  by (simp add: fitCategoricals_def fold_upd_map)

lemma fitCategoricals_fields [simp]:
  "raw (fitCategoricals dl rows) = raw dl"
  "catCols (fitCategoricals dl rows) = catCols dl"
  "metaRows (fitCategoricals dl rows) = metaRows dl"
  "augCfg (fitCategoricals dl rows) = augCfg dl"
  by (simp_all add: fitCategoricals_def)

lemma onehot_total:
  "\<forall>c\<in>set cs. encs c = Some (E c) \<Longrightarrow>
   onehot encs cs r = Inr (concat (map (\<lambda>c. onehot_block (E c) (cat_value r c)) cs))"
  by (induction cs) simp_all

lemma onehot_names_total:
  "\<forall>c\<in>set cs. encs c = Some (E c) \<Longrightarrow>
   onehot_names encs cs = Inr (concat (map (\<lambda>c. map (\<lambda>v. c @ ''__'' @ v) (Object_keys (E c))) cs))"
  by (induction cs) simp_all

lemma rowToFeatures_fitted:
  assumes "encoders dl = (\<lambda>c. if c \<in> set (catCols dl) then Some (fit_encoder rows c) else None)"
  shows "rowToFeatures toNumber dl r = Inr (features_of toNumber rows (catCols dl) r, label_of r)"
proof -
  have "onehot (encoders dl) (catCols dl) r =
        Inr (concat (map (\<lambda>c. onehot_block (fit_encoder rows c) (cat_value r c)) (catCols dl)))"
    by (rule onehot_total) (simp add: assms)
  then show ?thesis
    by (simp add: rowToFeatures_def features_of_def)
qed

lemma featurize_fitted:
  assumes "encoders dl = (\<lambda>c. if c \<in> set (catCols dl) then Some (fit_encoder rows c) else None)"
  shows "featurize toNumber dl rs =
         Inr (map (\<lambda>r. (features_of toNumber rows (catCols dl) r, label_of r)) rs)"
  by (induction rs) (simp_all add: rowToFeatures_fitted [OF assms])

lemma build_featureOrder_fitted:
  assumes "encoders dl = (\<lambda>c. if c \<in> set (catCols dl) then Some (fit_encoder rows c) else None)"
  shows "build_featureOrder dl = Inr (names_of rows (catCols dl))"
proof -
  have "onehot_names (encoders dl) (catCols dl) =
        Inr (concat (map (\<lambda>c. map (\<lambda>v. c @ ''__'' @ v) (Object_keys (fit_encoder rows c))) (catCols dl)))"
    by (rule onehot_names_total) (simp add: assms)
  then show ?thesis
    by (simp add: build_featureOrder_def names_of_def)
qed

lemma prepareTensors_assemble:
  assumes "raw dl \<noteq> []"
  shows "prepareTensors toNumber gauss dl cfg =
         assemble gauss (fitted dl cfg) (feats_labels toNumber dl) (split_arg cfg)"
proof -
  let ?dl1 = "dl\<lparr> augCfg := (case augment cfg of None \<Rightarrow> default_aug | Some a \<Rightarrow> a) \<rparr>"
  let ?dl2 = "fitCategoricals ?dl1 (raw ?dl1)"
  have e: "encoders ?dl2 = (\<lambda>c. if c \<in> set (catCols ?dl2) then Some (fit_encoder (raw dl) c) else None)"
    by (simp add: encoders_fitCategoricals)
  have fo: "build_featureOrder ?dl2 = Inr (names_of (raw dl) (catCols dl))"
    using build_featureOrder_fitted [OF e] by simp
  let ?dl3 = "?dl2\<lparr> featureOrder := names_of (raw dl) (catCols dl) \<rparr>"
  have e3: "encoders ?dl3 = (\<lambda>c. if c \<in> set (catCols ?dl3) then Some (fit_encoder (raw dl) c) else None)"
    by (simp add: encoders_fitCategoricals)
  have fz: "featurize toNumber ?dl3 (raw dl) = Inr (feats_labels toNumber dl)"
    using featurize_fitted [OF e3, of toNumber "raw dl"] by (simp add: feats_labels_def)
  show ?thesis
    using assms fo fz by (simp add: prepareTensors_def Let_def fitted_def split_arg_def)
qed

subsection \<open>The augmenter\<close>

lemma synth_frame:
  "synth m k posIdx Xtr nd noise g (h, oX, oY) = Inr (h', X', Y') \<Longrightarrow>
   take (length h) h' = h \<and> length h' = length h + m \<and>
   X' = oX @ [length h..<length h + m] \<and> Y' = oY @ replicate m [Fin 1]"
proof (induction m arbitrary: k h oX oY)
  case 0
  then show ?case by simp
next
  case (Suc m)
  let ?j = "posIdx ! (k mod length posIdx)"
  let ?clone = "perturb (h ! (Xtr ! ?j)) nd noise g (k * nd)"
  from Suc.prems have
    r: "synth m (Suc k) posIdx Xtr nd noise g (h @ [?clone], oX @ [length h], oY @ [[Fin 1]]) =
        Inr (h', X', Y')"
    by (simp add: Let_def split: if_splits)
  from Suc.IH [OF r] have
    t: "take (length (h @ [?clone])) h' = h @ [?clone]" and
    l: "length h' = length (h @ [?clone]) + m" and
    x: "X' = (oX @ [length h]) @ [length (h @ [?clone])..<length (h @ [?clone]) + m]" and
    y: "Y' = (oY @ [[Fin 1]]) @ replicate m [Fin 1]"
    by simp_all
  have "take (length h) h' = take (length h) (take (length (h @ [?clone])) h')"
    by (simp add: min_def)
  also have "\<dots> = h"
    by (simp only: t) simp
  finally have "take (length h) h' = h" .
  moreover from l have "length h' = length h + Suc m" by simp
  moreover from x have "X' = oX @ [length h..<length h + Suc m]"
    by (simp add: upt_rec [of "length h"])
  moreover from y have "Y' = oY @ replicate (Suc m) [Fin 1]"
    by (simp add: replicate_app_Cons_same)
  ultimately show ?case by blast
qed

lemma synth_total:
  "posIdx \<noteq> [] \<Longrightarrow> \<forall>j\<in>set posIdx. j < length Xtr \<Longrightarrow> \<forall>a\<in>set Xtr. a < length h \<Longrightarrow>
   \<exists>res. synth m k posIdx Xtr nd noise g (h, oX, oY) = Inr res"
proof (induction m arbitrary: k h oX oY)
  case 0
  then show ?case by simp
next
  case (Suc m)
  let ?j = "posIdx ! (k mod length posIdx)"
  from Suc.prems(1) have "?j \<in> set posIdx" by simp
  with Suc.prems(2) have j: "?j < length Xtr" by blast
  then have "Xtr ! ?j \<in> set Xtr" by simp
  with Suc.prems(3) have a: "Xtr ! ?j < length h" by blast
  let ?clone = "perturb (h ! (Xtr ! ?j)) nd noise g (k * nd)"
  have "\<forall>a\<in>set Xtr. a < length (h @ [?clone])"
    using Suc.prems(3) by auto
  from Suc.IH [OF Suc.prems(1) Suc.prems(2) this]
  obtain res where
    "synth m (Suc k) posIdx Xtr nd noise g (h @ [?clone], oX @ [length h], oY @ [[Fin 1]]) = Inr res"
    by blast
  with Suc.prems(1) j a show ?case
    by (cases res) (simp add: Let_def)
qed

lemma aug_ratio_cases:
  "aug_ratio a = Fin (if targetRatio a = NaN \<or> targetRatio a = Fin 0 then 1 / 2
                      else case targetRatio a of
                             Fin x \<Rightarrow> min (max x (1 / 5)) (4 / 5)
                           | PInf \<Rightarrow> 4 / 5
                           | _ \<Rightarrow> 1 / 5)"
  by (cases "targetRatio a") (auto simp: aug_ratio_def js_or_def js_max_def js_min_def)

lemma aug_ratio_range: "\<exists>r. aug_ratio a = Fin r \<and> 1 / 5 \<le> r \<and> r \<le> 4 / 5"
proof -
  let ?r = "if targetRatio a = NaN \<or> targetRatio a = Fin 0 then 1 / 2
            else case targetRatio a of
                   Fin x \<Rightarrow> min (max x (1 / 5)) (4 / 5) | PInf \<Rightarrow> 4 / 5 | _ \<Rightarrow> (1 / 5 :: real)"
  have "1 / 5 \<le> ?r \<and> ?r \<le> 4 / 5"
    by (cases "targetRatio a") auto
  with aug_ratio_cases [of a] show ?thesis by blast
qed

lemma need_of_finite: "r \<noteq> 1 \<Longrightarrow> \<exists>x. need_of (Fin r) n p = Fin x"
  by (simp add: need_of_def wantPos_of_def js_sub_def js_max_def)

lemma augment_total:
  assumes "\<forall>a\<in>set Xtr. a < length h" and "length ytr \<le> length Xtr" and "ratio = Fin r" and "r \<noteq> 1"
  shows "\<exists>res. augmentPositivesOnScaled h Xtr ytr nd ratio noise g = Returns res"
proof -
  let ?pos = "filter (\<lambda>i. is_pos (ytr ! i)) [0..<length ytr]"
  let ?neg = "filter (\<lambda>i. \<not> is_pos (ytr ! i)) [0..<length ytr]"
  obtain x where x: "need_of ratio (length ?neg) (length ?pos) = Fin x"
    using need_of_finite [OF assms(4)] assms(3) by blast
  show ?thesis
  proof (cases "?pos = [] \<or> js_le (Fin x) (Fin 0)")
    case True
    then show ?thesis
      by (auto simp: augmentPositivesOnScaled_def Let_def x)
  next
    case False
    then have ne: "?pos \<noteq> []" and nle: "\<not> js_le (Fin x) (Fin 0)" by simp_all
    have "\<forall>j\<in>set ?pos. j < length Xtr"
      using assms(2) by auto
    from synth_total [OF ne this assms(1)]
    obtain res where "synth (nat \<lceil>x\<rceil>) 0 ?pos Xtr nd noise g (h, Xtr, ytr) = Inr res"
      by blast
    with ne nle show ?thesis
      by (cases res) (simp add: augmentPositivesOnScaled_def Let_def x)
  qed
qed

lemma augment_frame_aux:
  assumes "augmentPositivesOnScaled h Xtr ytr nd ratio noise g = Returns (h', X', Y')"
  shows "\<exists>m. take (length h) h' = h \<and> length h' = length h + m \<and>
             X' = Xtr @ [length h..<length h + m] \<and> Y' = ytr @ replicate m [Fin 1]"
proof -
  let ?pos = "filter (\<lambda>i. is_pos (ytr ! i)) [0..<length ytr]"
  let ?neg = "filter (\<lambda>i. \<not> is_pos (ytr ! i)) [0..<length ytr]"
  let ?need = "need_of ratio (length ?neg) (length ?pos)"
  show ?thesis
  proof (cases "?pos = [] \<or> js_le ?need (Fin 0)")
    case True
    have "h' = h \<and> X' = Xtr \<and> Y' = ytr"
    proof (cases "?pos = []")
      case True
      with assms show ?thesis
        by (simp add: augmentPositivesOnScaled_def Let_def)
    next
      case False
      with True have "js_le ?need (Fin 0)" by simp
      with False assms show ?thesis
        by (simp add: augmentPositivesOnScaled_def Let_def)
    qed
    then have "take (length h) h' = h \<and> length h' = length h + 0 \<and>
             X' = Xtr @ [length h..<length h + 0] \<and> Y' = ytr @ replicate 0 [Fin 1]"
      by simp
    then show ?thesis by blast
  next
    case False
    with assms obtain m where "synth m 0 ?pos Xtr nd noise g (h, Xtr, ytr) = Inr (h', X', Y')"
      by (auto simp: augmentPositivesOnScaled_def Let_def split: option.splits sum.splits)
    from synth_frame [OF this] show ?thesis by blast
  qed
qed

subsection \<open>The result of \<open>prepareTensors\<close>\<close>

lemma map_nth_upt_take_drop: "n + k \<le> length h \<Longrightarrow> map (\<lambda>a. h ! a) [n..<n + k] = take k (drop n h)"
  by (rule nth_equalityI) auto

lemma nth_of_prefix: "take n h' = h \<Longrightarrow> \<forall>a\<in>set as. a < n \<Longrightarrow> map (\<lambda>a. h' ! a) as = map (\<lambda>a. h ! a) as"
proof -
  assume t: "take n h' = h" and b: "\<forall>a\<in>set as. a < n"
  have "\<And>a. a < n \<Longrightarrow> h ! a = h' ! a"
    using t by (metis nth_take)
  with b show ?thesis by simp
qed

lemma maybe_augment_total:
  assumes "\<forall>a\<in>set Xtr. a < length h" and "length ytr \<le> length Xtr"
  shows "\<exists>res. maybe_augment g a h Xtr ytr = Returns res"
proof (cases "enable a")
  case True
  obtain r where r: "aug_ratio a = Fin r" "1 / 5 \<le> r" "r \<le> 4 / 5"
    using aug_ratio_range by blast
  then have "r \<noteq> 1" by simp
  from augment_total [OF assms r(1) this] True show ?thesis
    by (simp add: maybe_augment_def)
next
  case False
  then show ?thesis by (simp add: maybe_augment_def)
qed

lemma maybe_augment_frame:
  assumes "maybe_augment g a h Xtr ytr = Returns (h', X', Y')"
  shows "\<exists>m. take (length h) h' = h \<and> length h' = length h + m \<and>
             X' = Xtr @ [length h..<length h + m] \<and> Y' = ytr @ replicate m [Fin 1]"
proof (cases "enable a")
  case True
  with assms have "augmentPositivesOnScaled h Xtr ytr (length baseNum + length engineeredNames)
      (aug_ratio a) (aug_noise a) g = Returns (h', X', Y')"
    by (simp add: maybe_augment_def)
  then show ?thesis
    by (rule augment_frame_aux)
next
  case False
  with assms have "h' = h \<and> X' = Xtr \<and> Y' = ytr"
    by (simp add: maybe_augment_def)
  then have "take (length h) h' = h \<and> length h' = length h + 0 \<and>
             X' = Xtr @ [length h..<length h + 0] \<and> Y' = ytr @ replicate 0 [Fin 1]"
    by simp
  then show ?thesis by blast
qed

lemma length_applyScaler [simp]: "length (applyScaler sc X) = length X"
  by (simp add: applyScaler_def)

lemma assemble_result:
  fixes gauss dl fl ts
  defines "trainI \<equiv> fst (stratified_split (map snd fl) ts)"
    and "testI \<equiv> snd (stratified_split (map snd fl) ts)"
  defines "sc \<equiv> fitScaler (map (\<lambda>i. map fst fl ! i) trainI)"
  defines "XtrS \<equiv> applyScaler sc (map (\<lambda>i. map fst fl ! i) trainI)"
    and "XteS \<equiv> applyScaler sc (map (\<lambda>i. map fst fl ! i) testI)"
    and "ytr \<equiv> map (\<lambda>i. [map snd fl ! i]) trainI"
  shows "\<exists>dl' res m. assemble gauss dl fl ts = Returns (dl', res) \<and>
           dl' = dl\<lparr> scaler := Some sc, kept := baseNum @ engineeredNames @ catCols dl \<rparr> \<and>
           trainIdx res = trainI \<and> testIdx res = testI \<and>
           featureOrder_out res = featureOrder dl \<and>
           xTest res = XteS \<and> yTest res = map (\<lambda>i. [map snd fl ! i]) testI \<and>
           take (length trainI) (xTrain res) = XtrS \<and>
           yTrain res = ytr @ replicate m [Fin 1] \<and>
           length (xTrain res) = length trainI + m \<and>
           (\<not> enable (augCfg dl) \<longrightarrow> m = 0)"
proof -
  let ?h0 = "XtrS @ XteS"
  let ?trA = "[0..<length XtrS]"
  let ?teA = "[length XtrS..<length XtrS + length XteS]"
  have v: "\<forall>a\<in>set ?trA. a < length ?h0" by simp
  have l: "length ytr \<le> length ?trA" by (simp add: ytr_def XtrS_def)
  obtain res0 where "maybe_augment gauss (augCfg dl) ?h0 ?trA ytr = Returns res0"
    using maybe_augment_total [OF v l] by blast
  then obtain h1 X Y where ma: "maybe_augment gauss (augCfg dl) ?h0 ?trA ytr = Returns (h1, X, Y)"
    by (cases res0) simp
  from maybe_augment_frame [OF ma] obtain m where
    t: "take (length ?h0) h1 = ?h0" and lh: "length h1 = length ?h0 + m" and
    X: "X = ?trA @ [length ?h0..<length ?h0 + m]" and Y: "Y = ytr @ replicate m [Fin 1]"
    by blast
  have m0: "\<not> enable (augCfg dl) \<longrightarrow> m = 0"
  proof
    assume "\<not> enable (augCfg dl)"
    with ma have "h1 = ?h0" by (simp add: maybe_augment_def)
    with lh show "m = 0" by simp
  qed
  have te: "map (\<lambda>a. h1 ! a) ?teA = XteS"
  proof -
    have "map (\<lambda>a. h1 ! a) ?teA = map (\<lambda>a. ?h0 ! a) ?teA"
      by (rule nth_of_prefix [OF t]) simp
    also have "\<dots> = take (length XteS) (drop (length XtrS) ?h0)"
      by (rule map_nth_upt_take_drop) simp
    finally show ?thesis by simp
  qed
  have tr: "take (length trainI) (map (\<lambda>a. h1 ! a) X) = XtrS"
  proof -
    have len: "length XtrS = length trainI" by (simp add: XtrS_def)
    have "take (length trainI) (map (\<lambda>a. h1 ! a) X) = map (\<lambda>a. h1 ! a) ?trA"
      by (simp add: X len)
    also have "\<dots> = map (\<lambda>a. ?h0 ! a) ?trA"
      by (rule nth_of_prefix [OF t]) simp
    also have "\<dots> = take (length XtrS) (drop 0 ?h0)"
      using map_nth_upt_take_drop [of 0 "length XtrS" ?h0] by simp
    finally show ?thesis by simp
  qed
  have lx: "length (map (\<lambda>a. h1 ! a) X) = length trainI + m"
    by (simp add: X XtrS_def)
  have "assemble gauss dl fl ts =
        Returns (dl\<lparr> scaler := Some sc, kept := baseNum @ engineeredNames @ catCols dl \<rparr>,
                 \<lparr> xTrain = map (\<lambda>a. h1 ! a) X, yTrain = Y,
                   xTest = map (\<lambda>a. h1 ! a) ?teA, yTest = map (\<lambda>i. [map snd fl ! i]) testI,
                   testMeta = map (nth_opt (metaRows dl)) testI,
                   featureOrder_out = featureOrder dl,
                   trainIdx = trainI, testIdx = testI \<rparr>)"
    using ma
    by (simp add: assemble_def Let_def trainI_def testI_def sc_def XtrS_def XteS_def ytr_def)
  with te tr Y lx m0 show ?thesis
    by simp
qed

lemma fitted_fields [simp]:
  "raw (fitted dl cfg) = raw dl"
  "catCols (fitted dl cfg) = catCols dl"
  "metaRows (fitted dl cfg) = metaRows dl"
  "featureOrder (fitted dl cfg) = names_of (raw dl) (catCols dl)"
  "augCfg (fitted dl cfg) = (case augment cfg of None \<Rightarrow> default_aug | Some a \<Rightarrow> a)"
  by (simp_all add: fitted_def)

lemma prepareTensors_result:
  assumes "raw dl \<noteq> []"
  shows "\<exists>dl' res m. prepareTensors toNumber gauss dl cfg = Returns (dl', res) \<and>
           raw dl' = raw dl \<and> catCols dl' = catCols dl \<and>
           scaler dl' = Some (scaler_of toNumber dl cfg) \<and>
           featureOrder dl' = names_of (raw dl) (catCols dl) \<and>
           featureOrder_out res = names_of (raw dl) (catCols dl) \<and>
           trainIdx res = fst (split_of toNumber dl cfg) \<and>
           testIdx res = snd (split_of toNumber dl cfg) \<and>
           xTest res = applyScaler (scaler_of toNumber dl cfg)
                         (rows_at toNumber dl (snd (split_of toNumber dl cfg))) \<and>
           yTest res = labels_at toNumber dl (snd (split_of toNumber dl cfg)) \<and>
           take (length (fst (split_of toNumber dl cfg))) (xTrain res) =
             applyScaler (scaler_of toNumber dl cfg)
               (rows_at toNumber dl (fst (split_of toNumber dl cfg))) \<and>
           yTrain res = labels_at toNumber dl (fst (split_of toNumber dl cfg)) @ replicate m [Fin 1] \<and>
           length (xTrain res) = length (fst (split_of toNumber dl cfg)) + m \<and>
           (augment cfg = None \<longrightarrow> m = 0)"
proof -
  have e: "enable (augCfg (fitted dl cfg)) \<Longrightarrow> augment cfg \<noteq> None"
    by (cases "augment cfg") (simp_all add: default_aug_def)
  from assemble_result [of gauss "fitted dl cfg" "feats_labels toNumber dl" "split_arg cfg"]
  obtain dl' res m where
    "assemble gauss (fitted dl cfg) (feats_labels toNumber dl) (split_arg cfg) = Returns (dl', res)"
    "dl' = (fitted dl cfg)\<lparr> scaler := Some (scaler_of toNumber dl cfg),
                             kept := baseNum @ engineeredNames @ catCols (fitted dl cfg) \<rparr>"
    "trainIdx res = fst (split_of toNumber dl cfg)"
    "testIdx res = snd (split_of toNumber dl cfg)"
    "featureOrder_out res = featureOrder (fitted dl cfg)"
    "xTest res = applyScaler (scaler_of toNumber dl cfg)
                         (rows_at toNumber dl (snd (split_of toNumber dl cfg)))"
    "yTest res = labels_at toNumber dl (snd (split_of toNumber dl cfg))"
    "take (length (fst (split_of toNumber dl cfg))) (xTrain res) =
             applyScaler (scaler_of toNumber dl cfg)
               (rows_at toNumber dl (fst (split_of toNumber dl cfg)))"
    "yTrain res = labels_at toNumber dl (fst (split_of toNumber dl cfg)) @ replicate m [Fin 1]"
    "length (xTrain res) = length (fst (split_of toNumber dl cfg)) + m"
    "\<not> enable (augCfg (fitted dl cfg)) \<longrightarrow> m = 0"
    unfolding split_of_def scaler_of_def rows_at_def labels_at_def by blast
  with e show ?thesis
    unfolding prepareTensors_assemble [OF assms]
    by (intro exI [of _ dl'] exI [of _ res] exI [of _ m]) auto
qed

lemma length_feats_labels [simp]: "length (feats_labels toNumber dl) = length (raw dl)"
  by (simp add: feats_labels_def)

lemma feats_labels_cong:
  "raw dl' = raw dl \<Longrightarrow> catCols dl' = catCols dl \<Longrightarrow> feats_labels toNumber dl' = feats_labels toNumber dl"
  by (simp add: feats_labels_def)

text \<open>
  Claim C1. For every loaded dataset (at least one row) and every test fraction, clamped or
  not, \<open>prepareTensors\<close> gets through split, scaling and augmentation without failing, and
  the train and test index lists it has built hold every row index exactly once: the two
  are disjoint and their union is the set of all row indices.
\<close>

theorem prepareTensors_split_partition:
  assumes "raw dl \<noteq> []"
  shows "\<exists>dl' res. prepareTensors toNumber gauss dl cfg = Returns (dl', res) \<and>
           mset (trainIdx res @ testIdx res) = mset [0..<length (raw dl)] \<and>
           distinct (trainIdx res @ testIdx res) \<and>
           set (trainIdx res) \<inter> set (testIdx res) = {} \<and>
           set (trainIdx res) \<union> set (testIdx res) = {0..<length (raw dl)}"
proof -
  from prepareTensors_result [OF assms, of toNumber gauss cfg]
  obtain dl' res where r: "prepareTensors toNumber gauss dl cfg = Returns (dl', res)"
    and tr: "trainIdx res = fst (split_of toNumber dl cfg)"
    and te: "testIdx res = snd (split_of toNumber dl cfg)"
    by blast
  have m: "mset (trainIdx res @ testIdx res) = mset [0..<length (raw dl)]"
    unfolding tr te split_of_def
    using mset_stratified_split [of "map snd (feats_labels toNumber dl)" "split_arg cfg"]
    by simp
  then have d: "distinct (trainIdx res @ testIdx res)"
    by (metis distinct_upt mset_eq_imp_distinct_iff)
  from m have s: "set (trainIdx res @ testIdx res) = set [0..<length (raw dl)]"
    by (rule mset_eq_setD)
  from d have "set (trainIdx res) \<inter> set (testIdx res) = {}" by simp
  moreover from s have "set (trainIdx res) \<union> set (testIdx res) = {0..<length (raw dl)}" by simp
  ultimately show ?thesis using r m d by blast
qed

text \<open>The example loader has rows, so the split of its rows is a partition.\<close>

theorem prepareTensors_split_partition_witness:
  "raw demo_loader \<noteq> [] \<and>
   (\<exists>dl' res. prepareTensors digits_toNumber (\<lambda>k. Fin 0) demo_loader demo_cfg = Returns (dl', res) \<and>
      mset (trainIdx res @ testIdx res) = mset [0..<length (raw demo_loader)] \<and>
      set (trainIdx res) \<inter> set (testIdx res) = {})"
proof -
  have h: "raw demo_loader \<noteq> []"
    by (simp add: demo_loader_def demo_rows_def)
  from prepareTensors_split_partition [OF h, of digits_toNumber "\<lambda>k. Fin 0" demo_cfg] h
  show ?thesis by blast
qed

text \<open>
  Claim C6. Preparing twice gives the same split and the same scaler: when the dataset is
  loaded, \<open>prepareTensors\<close> returns, a second call on the loader it leaves behind, with the
  same configuration, returns as well, and both calls give the same train and test index
  lists and the same scaler statistics. The random stream of the augmenter may differ
  between the calls; the generator of the shuffle starts from 1337 in every call.
\<close>

theorem prepareTensors_deterministic:
  assumes "raw dl \<noteq> []"
  shows "\<exists>dl1 r1 dl2 r2.
           prepareTensors toNumber gauss1 dl cfg = Returns (dl1, r1) \<and>
           prepareTensors toNumber gauss2 dl1 cfg = Returns (dl2, r2) \<and>
           trainIdx r2 = trainIdx r1 \<and> testIdx r2 = testIdx r1 \<and>
           scaler dl2 = scaler dl1 \<and> scaler dl1 \<noteq> None"
proof -
  from prepareTensors_result [OF assms, of toNumber gauss1 cfg]
  obtain dl1 r1 where 1: "prepareTensors toNumber gauss1 dl cfg = Returns (dl1, r1)"
    and rw: "raw dl1 = raw dl" and cc: "catCols dl1 = catCols dl"
    and s1: "scaler dl1 = Some (scaler_of toNumber dl cfg)"
    and tr1: "trainIdx r1 = fst (split_of toNumber dl cfg)"
    and te1: "testIdx r1 = snd (split_of toNumber dl cfg)"
    by blast
  from rw assms have "raw dl1 \<noteq> []" by simp
  from prepareTensors_result [OF this, of toNumber gauss2 cfg]
  obtain dl2 r2 where 2: "prepareTensors toNumber gauss2 dl1 cfg = Returns (dl2, r2)"
    and s2: "scaler dl2 = Some (scaler_of toNumber dl1 cfg)"
    and tr2: "trainIdx r2 = fst (split_of toNumber dl1 cfg)"
    and te2: "testIdx r2 = snd (split_of toNumber dl1 cfg)"
    by blast
  have f: "feats_labels toNumber dl1 = feats_labels toNumber dl"
    by (rule feats_labels_cong [OF rw cc])
  have sp: "split_of toNumber dl1 cfg = split_of toNumber dl cfg"
    by (simp add: split_of_def f)
  have sc: "scaler_of toNumber dl1 cfg = scaler_of toNumber dl cfg"
    by (simp add: scaler_of_def rows_at_def sp f)
  from 1 2 s1 s2 tr1 tr2 te1 te2 sp sc show ?thesis
    by (intro exI [of _ dl1] exI [of _ r1] exI [of _ dl2] exI [of _ r2]) simp
qed

text \<open>The example loader prepared twice, with two different random streams.\<close>

theorem prepareTensors_deterministic_witness:
  "raw demo_loader \<noteq> [] \<and>
   (\<exists>dl1 r1 dl2 r2.
      prepareTensors digits_toNumber (\<lambda>k. Fin 0) demo_loader demo_cfg = Returns (dl1, r1) \<and>
      prepareTensors digits_toNumber (\<lambda>k. Fin 1) dl1 demo_cfg = Returns (dl2, r2) \<and>
      trainIdx r2 = trainIdx r1 \<and> testIdx r2 = testIdx r1 \<and> scaler dl2 = scaler dl1)"
proof -
  have h: "raw demo_loader \<noteq> []"
    by (simp add: demo_loader_def demo_rows_def)
  from prepareTensors_deterministic [OF h, of digits_toNumber "\<lambda>k. Fin 0" demo_cfg "\<lambda>k. Fin 1"] h
  show ?thesis by blast
qed

subsection \<open>Frame of the augmentation\<close>

lemma length_filter_idx:
  "length (filter (\<lambda>i. Q (xs ! i)) [0..<length xs]) = length (filter Q xs)"
proof -
  have "filter Q xs = filter Q (map (\<lambda>i. xs ! i) [0..<length xs])"
    by (simp add: map_nth)
  also have "\<dots> = map (\<lambda>i. xs ! i) (filter (Q \<circ> (\<lambda>i. xs ! i)) [0..<length xs])"
    by (rule filter_map)
  finally have "length (filter Q xs) = length (filter (Q \<circ> (\<lambda>i. xs ! i)) [0..<length xs])"
    by simp
  then show ?thesis by (simp add: comp_def)
qed






text \<open>
  Claim C10. When no training row is labelled 1, the augmenter returns the store, the matrix
  and the labels unchanged and does not fail; the body of the synthesis loop, were it
  entered with an empty list of positive indices, would throw.
\<close>

theorem augment_no_positives:
  assumes "filter is_pos ytr = []"
  shows "augmentPositivesOnScaled h Xtr ytr nd ratio noise g = Returns (h, Xtr, ytr) \<and>
         synth (Suc m) k [] Xtr nd noise g (h, Xtr, ytr) = Inl TypeError"
proof -
  have "length (filter (\<lambda>i. is_pos (ytr ! i)) [0..<length ytr]) = length (filter is_pos ytr)"
    by (rule length_filter_idx)
  with assms have "filter (\<lambda>i. is_pos (ytr ! i)) [0..<length ytr] = []"
    by simp
  then show ?thesis
    by (simp add: augmentPositivesOnScaled_def Let_def)
qed

text \<open>Two rows labelled 0.\<close>

theorem augment_no_positives_witness:
  "filter is_pos [[Fin 0], [Fin 0]] = [] \<and>
   augmentPositivesOnScaled [[Fin 5], [Fin 6]] [0, 1] [[Fin 0], [Fin 0]] 1 (Fin 0.5) (Fin 0.05) (\<lambda>k. Fin 0)
     = Returns ([[Fin 5], [Fin 6]], [0, 1], [[Fin 0], [Fin 0]])"
proof -
  have h: "filter is_pos [[Fin 0], [Fin 0]] = []"
    by (simp add: is_pos_def)
  from augment_no_positives [OF h, of "[[Fin 5], [Fin 6]]" "[0, 1]" 1 "Fin 0.5" "Fin 0.05" "\<lambda>k. Fin 0"] h
  show ?thesis by blast
qed

subsection \<open>The sizes of the split\<close>

















subsection \<open>The categorical value \<open>__proto__\<close>\<close>

lemma proto_lines:
  "csv_lines proto_csv = [''Attrition,Department'', ''No,Sales'', ''No,__proto__'', ''No,zeta'']"
  by (simp add: proto_csv_def csv_lines_def replace_cr_def LF_def CR_def)

lemma proto_parse:
  "parseCSV proto_csv =
     Inr ([''Attrition'', ''Department''],
          [mk_row [''Attrition'', ''Department''] [''No'', ''Sales''],
           mk_row [''Attrition'', ''Department''] [''No'', ''__proto__''],
           mk_row [''Attrition'', ''Department''] [''No'', ''zeta'']])"
  by (simp add: parseCSV_def proto_lines trim_def is_space_def Let_def)

lemma proto_load:
  "fromFile new_loader (Readable proto_csv) = Inr proto_loader"
  by (simp add: proto_loader_def fromFile_def proto_parse labelKey_def Let_def)

lemma proto_catCols: "catCols proto_loader = [''Department'']"
  by (simp add: proto_loader_def fromFile_def proto_parse labelKey_def Let_def catKnown_def)

lemma proto_raw_length: "length (raw proto_loader) = 3"
  by (simp add: proto_loader_def fromFile_def proto_parse labelKey_def Let_def)

lemma proto_departments:
  "map (\<lambda>r. cat_value r ''Department'') (raw proto_loader) = [''Sales'', ''__proto__'', ''zeta'']"
  by (simp add: proto_loader_def fromFile_def proto_parse labelKey_def Let_def catKnown_def
      cat_value_def keep_allowed_def allowed_def baseNum_def metaFields_def dropped_def
      mk_row_def proto_def trim_def is_space_def)

lemma proto_encoder: "fit_encoder (raw proto_loader) ''Department'' = [(''Sales'', 0), (''zeta'', 2)]"
proof -
  have "sort (remdups [''Sales'', ''__proto__'', ''zeta'']) = [''Sales'', ''__proto__'', ''zeta'']"
    by code_simp
  then show ?thesis
    by (simp add: fit_encoder_def proto_departments obj_set_def proto_def upt_rec numeral_3_eq_3)
qed

lemma proto_keys: "Object_keys [(''Sales'', 0::nat), (''zeta'', 2)] = [''Sales'', ''zeta'']"
  by code_simp

lemma proto_encoders:
  "encoders (fitCategoricals proto_loader (raw proto_loader)) ''Department'' =
     Some [(''Sales'', 0), (''zeta'', 2)]"
  by (simp add: encoders_fitCategoricals proto_catCols proto_encoder)

lemma proto_values:
  "cat_value (raw proto_loader ! 0) ''Department'' = ''Sales''"
  "cat_value (raw proto_loader ! 1) ''Department'' = ''__proto__''"
  "cat_value (raw proto_loader ! 2) ''Department'' = ''zeta''"
proof -
  let ?f = "\<lambda>r. cat_value r ''Department''"
  have "\<And>i. i < 3 \<Longrightarrow> ?f (raw proto_loader ! i) = map ?f (raw proto_loader) ! i"
    by (simp add: proto_raw_length)
  then show "cat_value (raw proto_loader ! 0) ''Department'' = ''Sales''"
    "cat_value (raw proto_loader ! 1) ''Department'' = ''__proto__''"
    "cat_value (raw proto_loader ! 2) ''Department'' = ''zeta''"
    by (simp_all add: proto_departments)
qed

lemma proto_blocks:
  "onehot_block [(''Sales'', 0), (''zeta'', 2)] ''Sales'' = [Fin 1, Fin 0]"
  "onehot_block [(''Sales'', 0), (''zeta'', 2)] ''__proto__'' = [Fin 0, Fin 0]"
  "onehot_block [(''Sales'', 0), (''zeta'', 2)] ''zeta'' = [Fin 0, Fin 0, Fin 1]"
  by (simp_all add: onehot_block_def proto_keys obj_get_int_def proto_def array_set_def)

lemma length_base_features: "length (base_features toNumber r) = 23"
  by (simp add: base_features_def baseNum_def)

lemma length_engineered: "length (engineered toNumber r) = 7"
  by (simp add: engineered_def Let_def)

text \<open>
  Claim C7 fails on the code. The file \<open>proto_csv\<close> loads; its column \<open>Department\<close> has the
  values \<open>Sales\<close>, \<open>__proto__\<close> and \<open>zeta\<close>. The fitted encoder has the two keys \<open>Sales\<close> and
  \<open>zeta\<close>, with \<open>zeta\<close> at index 2, so the feature order has \<open>23 + 7 + 2 = 32\<close> names and the
  first row has 32 features, but the third row has 33: writing index 2 makes its block one
  slot longer.
\<close>

theorem feature_length_proto:
  "fromFile new_loader (Readable proto_csv) = Inr proto_loader \<and>
   (let dl = fitCategoricals proto_loader (raw proto_loader);
        r0 = raw proto_loader ! 0; r2 = raw proto_loader ! 2
    in build_featureOrder dl =
         Inr (baseNum @ engineeredNames @ [''Department__Sales'', ''Department__zeta'']) \<and>
       rowToFeatures toNumber dl r0 =
         Inr (base_features toNumber r0 @ engineered toNumber r0 @ [Fin 1, Fin 0], label_of r0) \<and>
       rowToFeatures toNumber dl r2 =
         Inr (base_features toNumber r2 @ engineered toNumber r2 @ [Fin 0, Fin 0, Fin 1], label_of r2) \<and>
       length (baseNum @ engineeredNames @ [''Department__Sales'', ''Department__zeta'']) = 32 \<and>
       length (base_features toNumber r0 @ engineered toNumber r0 @ [Fin 1, Fin 0]) = 32 \<and>
       length (base_features toNumber r2 @ engineered toNumber r2 @ [Fin 0, Fin 0, Fin 1]) = 33)"
proof -
  have "build_featureOrder (fitCategoricals proto_loader (raw proto_loader)) =
         Inr (baseNum @ engineeredNames @ [''Department__Sales'', ''Department__zeta''])"
    by (simp add: build_featureOrder_def proto_catCols proto_encoders proto_keys)
  moreover have "\<And>r. rowToFeatures toNumber (fitCategoricals proto_loader (raw proto_loader)) r =
      Inr (base_features toNumber r @ engineered toNumber r @
           onehot_block [(''Sales'', 0), (''zeta'', 2)] (cat_value r ''Department''), label_of r)"
    by (simp add: rowToFeatures_def proto_catCols proto_encoders)
  moreover have "length (baseNum @ engineeredNames @ [''Department__Sales'', ''Department__zeta'']) = 32"
    by (simp add: baseNum_def engineeredNames_def)
  ultimately show ?thesis
    by (simp add: proto_load proto_values proto_blocks length_base_features length_engineered Let_def)
qed

text \<open>
  Claim C9 fails on the code. For the second row of the same file, whose \<open>Department\<close> is
  \<open>__proto__\<close>, the one-hot block is all zero, although the encoder was fit on that very row.
\<close>

theorem onehot_proto_all_zero:
  "fromFile new_loader (Readable proto_csv) = Inr proto_loader \<and>
   (let dl = fitCategoricals proto_loader (raw proto_loader); r1 = raw proto_loader ! 1
    in r1 \<in> set (raw proto_loader) \<and>
       encoders dl ''Department'' = Some [(''Sales'', 0), (''zeta'', 2)] \<and>
       onehot (encoders dl) (catCols dl) r1 = Inr [Fin 0, Fin 0])"
proof -
  have "raw proto_loader ! 1 \<in> set (raw proto_loader)"
    by (rule nth_mem) (simp add: proto_raw_length)
  moreover have "onehot (encoders (fitCategoricals proto_loader (raw proto_loader)))
      (catCols (fitCategoricals proto_loader (raw proto_loader))) (raw proto_loader ! 1) = Inr [Fin 0, Fin 0]"
    by (simp add: proto_catCols proto_encoders proto_values [unfolded One_nat_def] proto_blocks)
  ultimately show ?thesis
    by (simp add: proto_load proto_encoders Let_def)
qed

subsection \<open>Encoders of columns without the value \<open>__proto__\<close>\<close>

text \<open>
  When no row has the value \<open>__proto__\<close> in a categorical column, the encoder of that column
  is the sorted value list with its positions, every block has exactly one entry 1 and all
  feature vectors have the length of the feature order.
\<close>

lemma alist_put_fresh: "k \<notin> fst ` set ob \<Longrightarrow> alist_put k v ob = ob @ [(k, v)]"
  by (induction ob) auto

lemma fold_obj_set:
  "distinct (map fst kvs) \<Longrightarrow> fst ` set kvs \<inter> fst ` set acc = {} \<Longrightarrow>
   fold (\<lambda>(v, i) enc. obj_set enc v i) kvs acc = acc @ filter (\<lambda>(v, i). v \<noteq> proto) kvs"
proof (induction kvs arbitrary: acc)
  case Nil
  then show ?case by simp
next
  case (Cons kv kvs)
  obtain k i where kv: "kv = (k, i)" by (cases kv)
  from Cons.prems kv have fresh: "k \<notin> fst ` set acc" by auto
  let ?acc = "obj_set acc k i"
  have acc: "?acc = (if k = proto then acc else acc @ [(k, i)])"
    by (simp add: obj_set_def alist_put_fresh [OF fresh])
  have "fst ` set kvs \<inter> fst ` set ?acc = {}"
    using Cons.prems kv by (auto simp: acc)
  with Cons.IH [of ?acc] Cons.prems have
    "fold (\<lambda>(v, i) enc. obj_set enc v i) kvs ?acc = ?acc @ filter (\<lambda>(v, i). v \<noteq> proto) kvs"
    by simp
  then show ?case
    by (simp add: kv acc)
qed

lemma distinct_col_values: "distinct (col_values rows c)"
  by (simp add: col_values_def)

lemma set_col_values: "set (col_values rows c) = (\<lambda>r. cat_value r c) ` set rows"
  by (simp add: col_values_def)

lemma fit_encoder_eq:
  "fit_encoder rows c =
     filter (\<lambda>(v, i). v \<noteq> proto) (zip (col_values rows c) [0..<length (col_values rows c)])"
proof -
  have "distinct (map fst (zip (col_values rows c) [0..<length (col_values rows c)]))"
    by (simp add: distinct_col_values)
  then show ?thesis
    unfolding fit_encoder_def Let_def col_values_def [symmetric]
    by (subst fold_obj_set) simp_all
qed

lemma fit_encoder_regular:
  assumes "proto \<notin> set (col_values rows c)"
  shows "fit_encoder rows c = zip (col_values rows c) [0..<length (col_values rows c)]"
proof -
  have "\<forall>x\<in>set (zip (col_values rows c) [0..<length (col_values rows c)]). (\<lambda>(v, i). v \<noteq> proto) x"
    using assms by (auto dest: set_zip_leftD)
  then show ?thesis
    by (simp add: fit_encoder_eq)
qed

lemma length_Object_keys: "length (Object_keys ob) = length ob"
proof -
  have "length (filter is_array_index (map fst ob)) +
        length (filter (\<lambda>k. \<not> is_array_index k) (map fst ob)) = length (map fst ob)"
    by (rule sum_length_filter_compl)
  then show ?thesis
    by (simp add: Object_keys_def Let_def)
qed

lemma onehot_block_regular:
  assumes "r \<in> set rows" and "proto \<notin> set (col_values rows c)"
  shows "\<exists>i<length (Object_keys (fit_encoder rows c)).
           onehot_block (fit_encoder rows c) (cat_value r c) =
             (replicate (length (Object_keys (fit_encoder rows c))) (Fin 0))[i := Fin 1]"
proof -
  let ?cats = "col_values rows c"
  let ?n = "length ?cats"
  have enc: "fit_encoder rows c = zip ?cats [0..<?n]"
    by (rule fit_encoder_regular [OF assms(2)])
  have len: "length (Object_keys (fit_encoder rows c)) = ?n"
    by (simp add: length_Object_keys enc)
  from assms(1) have "cat_value r c \<in> set ?cats"
    by (simp add: set_col_values)
  then obtain i where i: "i < ?n" "?cats ! i = cat_value r c"
    by (auto simp: in_set_conv_nth)
  have "map_of (zip ?cats [0..<?n]) (?cats ! i) = Some ([0..<?n] ! i)"
    by (rule map_of_zip_nth) (simp_all add: distinct_col_values i(1))
  with i have m: "map_of (zip ?cats [0..<?n]) (cat_value r c) = Some i"
    by simp
  from assms(2) \<open>cat_value r c \<in> set ?cats\<close> have "cat_value r c \<noteq> proto"
    by auto
  with m have "obj_get_int (fit_encoder rows c) (cat_value r c) = Some i"
    by (simp add: obj_get_int_def enc)
  then have "onehot_block (fit_encoder rows c) (cat_value r c) = (replicate ?n (Fin 0))[i := Fin 1]"
    using i(1) by (simp add: onehot_block_def len array_set_def)
  with i(1) len show ?thesis by auto
qed

lemma onehot_block_regular_one:
  assumes "r \<in> set rows" and "proto \<notin> set (col_values rows c)"
  shows "count_list (onehot_block (fit_encoder rows c) (cat_value r c)) (Fin 1) = 1"
    and "set (onehot_block (fit_encoder rows c) (cat_value r c)) \<subseteq> {Fin 0, Fin 1}"
    and "length (onehot_block (fit_encoder rows c) (cat_value r c)) =
         length (Object_keys (fit_encoder rows c))"
proof -
  from onehot_block_regular [OF assms] obtain i where
    i: "i < length (Object_keys (fit_encoder rows c))" and
    b: "onehot_block (fit_encoder rows c) (cat_value r c) =
          (replicate (length (Object_keys (fit_encoder rows c))) (Fin 0))[i := Fin 1]"
    by blast
  have c: "\<And>n i. i < n \<Longrightarrow> count_list ((replicate n (Fin 0))[i := Fin 1]) (Fin 1) = 1"
  proof -
    fix n i :: nat
    assume "i < n"
    then have "(replicate n (Fin 0))[i := Fin 1] =
        replicate i (Fin 0) @ Fin 1 # replicate (n - Suc i) (Fin 0)"
      by (simp add: list_eq_iff_nth_eq nth_list_update nth_append nth_Cons')
    then show "count_list ((replicate n (Fin 0))[i := Fin 1]) (Fin 1) = 1"
      by (simp add: count_list_0_iff)
  qed
  show "count_list (onehot_block (fit_encoder rows c) (cat_value r c)) (Fin 1) = 1"
    unfolding b by (rule c [OF i])
  show "set (onehot_block (fit_encoder rows c) (cat_value r c)) \<subseteq> {Fin 0, Fin 1}"
    unfolding b using set_update_subset_insert [of "replicate (length (Object_keys (fit_encoder rows c))) (Fin 0)" i "Fin 1"]
    by auto
  show "length (onehot_block (fit_encoder rows c) (cat_value r c)) =
         length (Object_keys (fit_encoder rows c))"
    unfolding b by simp
qed

lemma feature_length_regular:
  assumes "r \<in> set rows" and "\<forall>c\<in>set cs. proto \<notin> set (col_values rows c)"
  shows "length (features_of toNumber rows cs r) =
           length baseNum + length engineeredNames +
           sum_list (map (\<lambda>c. length (Object_keys (fit_encoder rows c))) cs)"
    and "length (features_of toNumber rows cs r) = length (names_of rows cs)"
proof -
  have "map (\<lambda>c. length (onehot_block (fit_encoder rows c) (cat_value r c))) cs =
        map (\<lambda>c. length (Object_keys (fit_encoder rows c))) cs"
    using assms by (simp add: onehot_block_regular_one(3))
  then have l: "length (concat (map (\<lambda>c. onehot_block (fit_encoder rows c) (cat_value r c)) cs)) =
        sum_list (map (\<lambda>c. length (Object_keys (fit_encoder rows c))) cs)"
    by (simp only: length_concat map_map comp_def)
  show "length (features_of toNumber rows cs r) =
           length baseNum + length engineeredNames +
           sum_list (map (\<lambda>c. length (Object_keys (fit_encoder rows c))) cs)"
    by (simp add: features_of_def l length_base_features length_engineered baseNum_def engineeredNames_def)
  then show "length (features_of toNumber rows cs r) = length (names_of rows cs)"
    by (simp add: names_of_def length_concat comp_def)
qed

subsection \<open>Early stopping\<close>















subsection \<open>The threshold scan\<close>

lemmas rnd_eval = rnd_def compute_bitlen round_even_def Let_def

lemma r1_10: "rnd 1 10 = (7205759403792794, 72057594037927936)"
  by (simp add: rnd_eval)

lemma r9_10: "rnd 9 10 = (8106479329266893, 9007199254740992)"
  by (simp add: rnd_eval)

lemma r1_100: "rnd 1 100 = (5764607523034235, 576460752303423488)"
  by (simp add: rnd_eval)

text \<open>A known value as a check of the arithmetic: \<open>0.1 + 0.2\<close> is
  \<open>0.30000000000000004\<close>, above the binary64 value of \<open>0.3\<close>.\<close>

lemma dadd_known_sum:
  "dadd (rnd 1 10) (rnd 1 5) = (5404319552844596, 18014398509481984)"
  "dlt (rnd 3 10) (dadd (rnd 1 10) (rnd 1 5))"
  by (simp_all add: dadd_def dlt_def rnd_eval)

lemma scan_from_numeral:
  "scan_from (numeral k) t =
     (if dle t (rnd 9 10) then map_option (Cons t) (scan_from (pred_numeral k) (dadd t (rnd 1 100))) else Some [])"
  by (simp add: numeral_eq_Suc)

lemma cand_eval:
  "\<exists>ts. candidates = Some ts \<and> length ts = 80 \<and> ts \<noteq> [] \<and> hd ts = rnd 1 10 \<and>
        list_all (\<lambda>t. dle t (115, 128)) ts \<and> list_all (\<lambda>t. dle t (15, 16)) ts \<and>
        list_all (\<lambda>t. dlt t (rnd 9 10)) ts \<and>
        last ts = (8016407336719489, 9007199254740992) \<and>
        dadd (last ts) (rnd 1 100) = (8106479329266899, 9007199254740992)"
  by (simp add: candidates_def scan_from_numeral r1_10 r9_10 r1_100 dle_def dlt_def dadd_def rnd_eval
      del: scan_from.simps)

lemma scan_best_constant:
  assumes "ts \<noteq> []" and "\<forall>t\<in>set ts. confusion t p y = Inr c"
    and "dlt (f1 b) (case c of (tp, fp, fn) \<Rightarrow> f1_of tp fp fn)"
  shows "scan_best ts p y b =
         Inr \<lparr> thr = toFixed2 (hd ts), f1 = (case c of (tp, fp, fn) \<Rightarrow> f1_of tp fp fn) \<rparr>"
proof -
  obtain tp fp fn where c: "c = (tp, fp, fn)" by (cases c)
  have irr: "\<not> dlt (f1_of tp fp fn) (f1_of tp fp fn)" by (simp add: dlt_def)
  have keep: "\<forall>t\<in>set us. confusion t p y = Inr c \<Longrightarrow>
      scan_best us p y \<lparr> thr = v, f1 = f1_of tp fp fn \<rparr> = Inr \<lparr> thr = v, f1 = f1_of tp fp fn \<rparr>" for us v
    by (induction us) (simp_all add: c irr)
  from assms(1) obtain t us where ts: "ts = t # us" by (cases ts) simp_all
  with assms(2) have "confusion t p y = Inr c" and "\<forall>t\<in>set us. confusion t p y = Inr c"
    by simp_all
  with assms(3) keep [of us "toFixed2 t"] show ?thesis
    by (simp add: ts c)
qed

lemma f1_110: "f1_of (Suc 0) (Suc 0) 0 = rnd 2 3"
  by (simp add: f1_of_def ddiv_def dmul_def dadd_def dmax_def dlt_def rnd_eval)

lemma f1_100: "f1_of (Suc 0) 0 0 = rnd 1 1"
  by (simp add: f1_of_def ddiv_def dmul_def dadd_def dmax_def dlt_def rnd_eval)

lemma toFixed2_first: "toFixed2 (rnd 1 10) = rnd 1 10"
  by (simp add: toFixed2_def r1_10 rnd_eval)

text \<open>
  Claim C5 fails on the code. The scan visits 80 thresholds, all of them below the binary64
  value of 0.90: the sums drift upwards, the last threshold visited is
  \<open>0.8900000000000007\<close> and the next value of \<open>t\<close>, \<open>0.9000000000000007\<close>, is above 0.90. For the two
  test rows with probabilities 0.9375 (label 1) and 0.8984375 (label 0) every visited
  threshold counts both rows as positive, and the scan returns the threshold 0.10 with
  F1 = 2/3 (rounded). At the threshold 0.90 the counts are \<open>tp = 1\<close>, \<open>fp = 0\<close>, \<open>fn = 0\<close> and
  F1 is 1, which is larger.
\<close>

theorem autoThreshold_misses_090:
  "\<exists>ts. candidates = Some ts \<and> length ts = 80 \<and> list_all (\<lambda>t. dlt t (rnd 9 10)) ts \<and>
        last ts = (8016407336719489, 9007199254740992) \<and>
        dadd (last ts) (rnd 1 100) = (8106479329266899, 9007199254740992) \<and>
        rnd 9 10 = (8106479329266893, 9007199254740992) \<and>
        autoThreshold (Some ([(15, 16), (115, 128)], [1, 0])) =
          Returns (Some \<lparr> thr = rnd 1 10, f1 = rnd 2 3 \<rparr>) \<and>
        confusion (rnd 9 10) [(15, 16), (115, 128)] [1, 0] = Inr (1, 0, 0) \<and>
        f1_of 1 0 0 = rnd 1 1 \<and> dlt (rnd 2 3) (rnd 1 1)"
proof -
  from cand_eval obtain ts where c: "candidates = Some ts" and l: "length ts = 80"
    and ne: "ts \<noteq> []" and h: "hd ts = rnd 1 10"
    and le: "list_all (\<lambda>t. dle t (115, 128)) ts" and le': "list_all (\<lambda>t. dle t (15, 16)) ts"
    and lt: "list_all (\<lambda>t. dlt t (rnd 9 10)) ts"
    and la: "last ts = (8016407336719489, 9007199254740992)"
    and nx: "dadd (last ts) (rnd 1 100) = (8106479329266899, 9007199254740992)"
    by blast
  have conf: "\<forall>t\<in>set ts. confusion t [(15, 16), (115, 128)] [1, 0] = Inr (1, 1, 0)"
  proof
    fix t assume "t \<in> set ts"
    with le le' have "dle t (115, 128)" and "dle t (15, 16)" by (simp_all add: list_all_iff)
    then show "confusion t [(15, 16), (115, 128)] [1, 0] = Inr (1, 1, 0)" by simp
  qed
  have "dlt (0, 1) (rnd 2 3)" by (simp add: dlt_def rnd_eval)
  then have "dlt (f1 \<lparr> thr = rnd 1 2, f1 = (0, 1) \<rparr>) (case (1, 1, 0) of (tp, fp, fn) \<Rightarrow> f1_of tp fp fn)"
    by (simp add: f1_110)
  from scan_best_constant [OF ne conf this]
  have "scan_best ts [(15, 16), (115, 128)] [1, 0] \<lparr> thr = rnd 1 2, f1 = (0, 1) \<rparr> =
        Inr \<lparr> thr = rnd 1 10, f1 = rnd 2 3 \<rparr>"
    by (simp add: h toFixed2_first f1_110)
  then have a: "autoThreshold (Some ([(15, 16), (115, 128)], [1, 0])) =
          Returns (Some \<lparr> thr = rnd 1 10, f1 = rnd 2 3 \<rparr>)"
    by (simp add: autoThreshold_def c)
  have b: "confusion (rnd 9 10) [(15, 16), (115, 128)] [1, 0] = Inr (1, 0, 0)"
    by (simp add: r9_10 dle_def)
  have d: "dlt (rnd 2 3) (rnd 1 1)" by (simp add: dlt_def rnd_eval)
  have e: "f1_of 1 0 0 = rnd 1 1" by (simp add: f1_100)
  from c l lt la nx r9_10 a b d e show ?thesis by blast
qed

end
